theory Spec2Isabelle
  imports Complex_Main "HOL-Library.Sublist" "HOL-Library.Multiset"
begin

section \<open>Python values used by exam-quiz.py\<close>

subsection \<open>Strings\<close>

text \<open>
  A Python \<^verbatim>\<open>str\<close> is the list of its code points; \<open>str\<close> writes one from a literal
  of Latin-1 characters. \<^verbatim>\<open>str.strip()\<close> removes, at both ends, the code points for
  which \<^verbatim>\<open>str.isspace\<close> holds, and \<^verbatim>\<open>str.upper()\<close> replaces every code point by its
  upper-case mapping (one to three code points), whatever stands around it. Both are
  those of CPython 3.11 (Unicode 14.0): \<open>whitespace\<close> lists the 29 white-space code
  points; an entry \<open>(lo, hi, step, ulo)\<close> of \<open>upper_runs\<close> says that the code points
  \<open>lo, lo + step, ..., hi\<close> map to \<open>ulo, ulo + step, ...\<close>; \<open>upper_special\<close> lists the
  code points with a mapping of several code points. Every other code point is its own
  upper case.
\<close>

type_synonym pystr = "nat list"

definition str :: "string \<Rightarrow> pystr" where
  "str s = map of_char s"

definition whitespace :: "nat list" where
  "whitespace =
    [0x9, 0xA, 0xB, 0xC, 0xD, 0x1C, 0x1D, 0x1E, 0x1F, 0x20, 0x85, 0xA0, 0x1680,
     0x2000, 0x2001, 0x2002, 0x2003, 0x2004, 0x2005, 0x2006, 0x2007, 0x2008, 0x2009, 0x200A,
     0x2028, 0x2029, 0x202F, 0x205F, 0x3000]"

definition isspace :: "nat \<Rightarrow> bool" where
  "isspace c = (c \<in> set whitespace)"

definition upper_runs :: "(nat \<times> nat \<times> nat \<times> nat) list" where
  "upper_runs =
    [(0x61, 0x7A, 1, 0x41), (0xB5, 0xB5, 1, 0x39C), (0xE0, 0xF6, 1, 0xC0), (0xF8, 0xFE, 1, 0xD8),
     (0xFF, 0xFF, 1, 0x178), (0x101, 0x12F, 2, 0x100), (0x131, 0x131, 1, 0x49),
     (0x133, 0x137, 2, 0x132), (0x13A, 0x148, 2, 0x139), (0x14B, 0x177, 2, 0x14A),
     (0x17A, 0x17E, 2, 0x179), (0x17F, 0x17F, 1, 0x53), (0x180, 0x180, 1, 0x243),
     (0x183, 0x185, 2, 0x182), (0x188, 0x188, 1, 0x187), (0x18C, 0x18C, 1, 0x18B),
     (0x192, 0x192, 1, 0x191), (0x195, 0x195, 1, 0x1F6), (0x199, 0x199, 1, 0x198),
     (0x19A, 0x19A, 1, 0x23D), (0x19E, 0x19E, 1, 0x220), (0x1A1, 0x1A5, 2, 0x1A0),
     (0x1A8, 0x1A8, 1, 0x1A7), (0x1AD, 0x1AD, 1, 0x1AC), (0x1B0, 0x1B0, 1, 0x1AF),
     (0x1B4, 0x1B6, 2, 0x1B3), (0x1B9, 0x1B9, 1, 0x1B8), (0x1BD, 0x1BD, 1, 0x1BC),
     (0x1BF, 0x1BF, 1, 0x1F7), (0x1C5, 0x1C5, 1, 0x1C4), (0x1C6, 0x1C6, 1, 0x1C4),
     (0x1C8, 0x1C8, 1, 0x1C7), (0x1C9, 0x1C9, 1, 0x1C7), (0x1CB, 0x1CB, 1, 0x1CA),
     (0x1CC, 0x1CC, 1, 0x1CA), (0x1CE, 0x1DC, 2, 0x1CD), (0x1DD, 0x1DD, 1, 0x18E),
     (0x1DF, 0x1EF, 2, 0x1DE), (0x1F2, 0x1F2, 1, 0x1F1), (0x1F3, 0x1F3, 1, 0x1F1),
     (0x1F5, 0x1F5, 1, 0x1F4), (0x1F9, 0x21F, 2, 0x1F8), (0x223, 0x233, 2, 0x222),
     (0x23C, 0x23C, 1, 0x23B), (0x23F, 0x240, 1, 0x2C7E), (0x242, 0x242, 1, 0x241),
     (0x247, 0x24F, 2, 0x246), (0x250, 0x250, 1, 0x2C6F), (0x251, 0x251, 1, 0x2C6D),
     (0x252, 0x252, 1, 0x2C70), (0x253, 0x253, 1, 0x181), (0x254, 0x254, 1, 0x186),
     (0x256, 0x257, 1, 0x189), (0x259, 0x259, 1, 0x18F), (0x25B, 0x25B, 1, 0x190),
     (0x25C, 0x25C, 1, 0xA7AB), (0x260, 0x260, 1, 0x193), (0x261, 0x261, 1, 0xA7AC),
     (0x263, 0x263, 1, 0x194), (0x265, 0x265, 1, 0xA78D), (0x266, 0x266, 1, 0xA7AA),
     (0x268, 0x268, 1, 0x197), (0x269, 0x269, 1, 0x196), (0x26A, 0x26A, 1, 0xA7AE),
     (0x26B, 0x26B, 1, 0x2C62), (0x26C, 0x26C, 1, 0xA7AD), (0x26F, 0x26F, 1, 0x19C),
     (0x271, 0x271, 1, 0x2C6E), (0x272, 0x272, 1, 0x19D), (0x275, 0x275, 1, 0x19F),
     (0x27D, 0x27D, 1, 0x2C64), (0x280, 0x280, 1, 0x1A6), (0x282, 0x282, 1, 0xA7C5),
     (0x283, 0x283, 1, 0x1A9), (0x287, 0x287, 1, 0xA7B1), (0x288, 0x288, 1, 0x1AE),
     (0x289, 0x289, 1, 0x244), (0x28A, 0x28B, 1, 0x1B1), (0x28C, 0x28C, 1, 0x245),
     (0x292, 0x292, 1, 0x1B7), (0x29D, 0x29D, 1, 0xA7B2), (0x29E, 0x29E, 1, 0xA7B0),
     (0x345, 0x345, 1, 0x399), (0x371, 0x373, 2, 0x370), (0x377, 0x377, 1, 0x376),
     (0x37B, 0x37D, 1, 0x3FD), (0x3AC, 0x3AC, 1, 0x386), (0x3AD, 0x3AF, 1, 0x388),
     (0x3B1, 0x3C1, 1, 0x391), (0x3C2, 0x3C2, 1, 0x3A3), (0x3C3, 0x3CB, 1, 0x3A3),
     (0x3CC, 0x3CC, 1, 0x38C), (0x3CD, 0x3CE, 1, 0x38E), (0x3D0, 0x3D0, 1, 0x392),
     (0x3D1, 0x3D1, 1, 0x398), (0x3D5, 0x3D5, 1, 0x3A6), (0x3D6, 0x3D6, 1, 0x3A0),
     (0x3D7, 0x3D7, 1, 0x3CF), (0x3D9, 0x3EF, 2, 0x3D8), (0x3F0, 0x3F0, 1, 0x39A),
     (0x3F1, 0x3F1, 1, 0x3A1), (0x3F2, 0x3F2, 1, 0x3F9), (0x3F3, 0x3F3, 1, 0x37F),
     (0x3F5, 0x3F5, 1, 0x395), (0x3F8, 0x3F8, 1, 0x3F7), (0x3FB, 0x3FB, 1, 0x3FA),
     (0x430, 0x44F, 1, 0x410), (0x450, 0x45F, 1, 0x400), (0x461, 0x481, 2, 0x460),
     (0x48B, 0x4BF, 2, 0x48A), (0x4C2, 0x4CE, 2, 0x4C1), (0x4CF, 0x4CF, 1, 0x4C0),
     (0x4D1, 0x52F, 2, 0x4D0), (0x561, 0x586, 1, 0x531), (0x10D0, 0x10FA, 1, 0x1C90),
     (0x10FD, 0x10FF, 1, 0x1CBD), (0x13F8, 0x13FD, 1, 0x13F0), (0x1C80, 0x1C80, 1, 0x412),
     (0x1C81, 0x1C81, 1, 0x414), (0x1C82, 0x1C82, 1, 0x41E), (0x1C83, 0x1C84, 1, 0x421),
     (0x1C85, 0x1C85, 1, 0x422), (0x1C86, 0x1C86, 1, 0x42A), (0x1C87, 0x1C87, 1, 0x462),
     (0x1C88, 0x1C88, 1, 0xA64A), (0x1D79, 0x1D79, 1, 0xA77D), (0x1D7D, 0x1D7D, 1, 0x2C63),
     (0x1D8E, 0x1D8E, 1, 0xA7C6), (0x1E01, 0x1E95, 2, 0x1E00), (0x1E9B, 0x1E9B, 1, 0x1E60),
     (0x1EA1, 0x1EFF, 2, 0x1EA0), (0x1F00, 0x1F07, 1, 0x1F08), (0x1F10, 0x1F15, 1, 0x1F18),
     (0x1F20, 0x1F27, 1, 0x1F28), (0x1F30, 0x1F37, 1, 0x1F38), (0x1F40, 0x1F45, 1, 0x1F48),
     (0x1F51, 0x1F57, 2, 0x1F59), (0x1F60, 0x1F67, 1, 0x1F68), (0x1F70, 0x1F71, 1, 0x1FBA),
     (0x1F72, 0x1F75, 1, 0x1FC8), (0x1F76, 0x1F77, 1, 0x1FDA), (0x1F78, 0x1F79, 1, 0x1FF8),
     (0x1F7A, 0x1F7B, 1, 0x1FEA), (0x1F7C, 0x1F7D, 1, 0x1FFA), (0x1FB0, 0x1FB1, 1, 0x1FB8),
     (0x1FBE, 0x1FBE, 1, 0x399), (0x1FD0, 0x1FD1, 1, 0x1FD8), (0x1FE0, 0x1FE1, 1, 0x1FE8),
     (0x1FE5, 0x1FE5, 1, 0x1FEC), (0x214E, 0x214E, 1, 0x2132), (0x2170, 0x217F, 1, 0x2160),
     (0x2184, 0x2184, 1, 0x2183), (0x24D0, 0x24E9, 1, 0x24B6), (0x2C30, 0x2C5F, 1, 0x2C00),
     (0x2C61, 0x2C61, 1, 0x2C60), (0x2C65, 0x2C65, 1, 0x23A), (0x2C66, 0x2C66, 1, 0x23E),
     (0x2C68, 0x2C6C, 2, 0x2C67), (0x2C73, 0x2C73, 1, 0x2C72), (0x2C76, 0x2C76, 1, 0x2C75),
     (0x2C81, 0x2CE3, 2, 0x2C80), (0x2CEC, 0x2CEE, 2, 0x2CEB), (0x2CF3, 0x2CF3, 1, 0x2CF2),
     (0x2D00, 0x2D25, 1, 0x10A0), (0x2D27, 0x2D27, 1, 0x10C7), (0x2D2D, 0x2D2D, 1, 0x10CD),
     (0xA641, 0xA66D, 2, 0xA640), (0xA681, 0xA69B, 2, 0xA680), (0xA723, 0xA72F, 2, 0xA722),
     (0xA733, 0xA76F, 2, 0xA732), (0xA77A, 0xA77C, 2, 0xA779), (0xA77F, 0xA787, 2, 0xA77E),
     (0xA78C, 0xA78C, 1, 0xA78B), (0xA791, 0xA793, 2, 0xA790), (0xA794, 0xA794, 1, 0xA7C4),
     (0xA797, 0xA7A9, 2, 0xA796), (0xA7B5, 0xA7C3, 2, 0xA7B4), (0xA7C8, 0xA7CA, 2, 0xA7C7),
     (0xA7D1, 0xA7D1, 1, 0xA7D0), (0xA7D7, 0xA7D9, 2, 0xA7D6), (0xA7F6, 0xA7F6, 1, 0xA7F5),
     (0xAB53, 0xAB53, 1, 0xA7B3), (0xAB70, 0xABBF, 1, 0x13A0), (0xFF41, 0xFF5A, 1, 0xFF21),
     (0x10428, 0x1044F, 1, 0x10400), (0x104D8, 0x104FB, 1, 0x104B0),
     (0x10597, 0x105A1, 1, 0x10570), (0x105A3, 0x105B1, 1, 0x1057C),
     (0x105B3, 0x105B9, 1, 0x1058C), (0x105BB, 0x105BC, 1, 0x10594),
     (0x10CC0, 0x10CF2, 1, 0x10C80), (0x118C0, 0x118DF, 1, 0x118A0),
     (0x16E60, 0x16E7F, 1, 0x16E40), (0x1E922, 0x1E943, 1, 0x1E900)]"

definition upper_special :: "(nat \<times> nat list) list" where
  "upper_special =
    [(0xDF, [0x53, 0x53]), (0x149, [0x2BC, 0x4E]), (0x1F0, [0x4A, 0x30C]),
     (0x390, [0x399, 0x308, 0x301]), (0x3B0, [0x3A5, 0x308, 0x301]), (0x587, [0x535, 0x552]),
     (0x1E96, [0x48, 0x331]), (0x1E97, [0x54, 0x308]), (0x1E98, [0x57, 0x30A]),
     (0x1E99, [0x59, 0x30A]), (0x1E9A, [0x41, 0x2BE]), (0x1F50, [0x3A5, 0x313]),
     (0x1F52, [0x3A5, 0x313, 0x300]), (0x1F54, [0x3A5, 0x313, 0x301]),
     (0x1F56, [0x3A5, 0x313, 0x342]), (0x1F80, [0x1F08, 0x399]), (0x1F81, [0x1F09, 0x399]),
     (0x1F82, [0x1F0A, 0x399]), (0x1F83, [0x1F0B, 0x399]), (0x1F84, [0x1F0C, 0x399]),
     (0x1F85, [0x1F0D, 0x399]), (0x1F86, [0x1F0E, 0x399]), (0x1F87, [0x1F0F, 0x399]),
     (0x1F88, [0x1F08, 0x399]), (0x1F89, [0x1F09, 0x399]), (0x1F8A, [0x1F0A, 0x399]),
     (0x1F8B, [0x1F0B, 0x399]), (0x1F8C, [0x1F0C, 0x399]), (0x1F8D, [0x1F0D, 0x399]),
     (0x1F8E, [0x1F0E, 0x399]), (0x1F8F, [0x1F0F, 0x399]), (0x1F90, [0x1F28, 0x399]),
     (0x1F91, [0x1F29, 0x399]), (0x1F92, [0x1F2A, 0x399]), (0x1F93, [0x1F2B, 0x399]),
     (0x1F94, [0x1F2C, 0x399]), (0x1F95, [0x1F2D, 0x399]), (0x1F96, [0x1F2E, 0x399]),
     (0x1F97, [0x1F2F, 0x399]), (0x1F98, [0x1F28, 0x399]), (0x1F99, [0x1F29, 0x399]),
     (0x1F9A, [0x1F2A, 0x399]), (0x1F9B, [0x1F2B, 0x399]), (0x1F9C, [0x1F2C, 0x399]),
     (0x1F9D, [0x1F2D, 0x399]), (0x1F9E, [0x1F2E, 0x399]), (0x1F9F, [0x1F2F, 0x399]),
     (0x1FA0, [0x1F68, 0x399]), (0x1FA1, [0x1F69, 0x399]), (0x1FA2, [0x1F6A, 0x399]),
     (0x1FA3, [0x1F6B, 0x399]), (0x1FA4, [0x1F6C, 0x399]), (0x1FA5, [0x1F6D, 0x399]),
     (0x1FA6, [0x1F6E, 0x399]), (0x1FA7, [0x1F6F, 0x399]), (0x1FA8, [0x1F68, 0x399]),
     (0x1FA9, [0x1F69, 0x399]), (0x1FAA, [0x1F6A, 0x399]), (0x1FAB, [0x1F6B, 0x399]),
     (0x1FAC, [0x1F6C, 0x399]), (0x1FAD, [0x1F6D, 0x399]), (0x1FAE, [0x1F6E, 0x399]),
     (0x1FAF, [0x1F6F, 0x399]), (0x1FB2, [0x1FBA, 0x399]), (0x1FB3, [0x391, 0x399]),
     (0x1FB4, [0x386, 0x399]), (0x1FB6, [0x391, 0x342]), (0x1FB7, [0x391, 0x342, 0x399]),
     (0x1FBC, [0x391, 0x399]), (0x1FC2, [0x1FCA, 0x399]), (0x1FC3, [0x397, 0x399]),
     (0x1FC4, [0x389, 0x399]), (0x1FC6, [0x397, 0x342]), (0x1FC7, [0x397, 0x342, 0x399]),
     (0x1FCC, [0x397, 0x399]), (0x1FD2, [0x399, 0x308, 0x300]), (0x1FD3, [0x399, 0x308, 0x301]),
     (0x1FD6, [0x399, 0x342]), (0x1FD7, [0x399, 0x308, 0x342]), (0x1FE2, [0x3A5, 0x308, 0x300]),
     (0x1FE3, [0x3A5, 0x308, 0x301]), (0x1FE4, [0x3A1, 0x313]), (0x1FE6, [0x3A5, 0x342]),
     (0x1FE7, [0x3A5, 0x308, 0x342]), (0x1FF2, [0x1FFA, 0x399]), (0x1FF3, [0x3A9, 0x399]),
     (0x1FF4, [0x38F, 0x399]), (0x1FF6, [0x3A9, 0x342]), (0x1FF7, [0x3A9, 0x342, 0x399]),
     (0x1FFC, [0x3A9, 0x399]), (0xFB00, [0x46, 0x46]), (0xFB01, [0x46, 0x49]),
     (0xFB02, [0x46, 0x4C]), (0xFB03, [0x46, 0x46, 0x49]), (0xFB04, [0x46, 0x46, 0x4C]),
     (0xFB05, [0x53, 0x54]), (0xFB06, [0x53, 0x54]), (0xFB13, [0x544, 0x546]),
     (0xFB14, [0x544, 0x535]), (0xFB15, [0x544, 0x53B]), (0xFB16, [0x54E, 0x546]),
     (0xFB17, [0x544, 0x53D])]"

definition upper_cp :: "nat \<Rightarrow> nat list" where
  "upper_cp c =
     (case map_of upper_special c of
        Some u \<Rightarrow> u
      | None \<Rightarrow>
          (case find (\<lambda>(lo, hi, step, ulo). lo \<le> c \<and> c \<le> hi \<and> (c - lo) mod step = 0) upper_runs of
             Some (lo, hi, step, ulo) \<Rightarrow> [ulo + (c - lo)]
           | None \<Rightarrow> [c]))"

definition upper :: "pystr \<Rightarrow> pystr" where
  "upper s = concat (map upper_cp s)"

definition strip :: "pystr \<Rightarrow> pystr" where
  "strip s = rev (dropWhile isspace (rev (dropWhile isspace s)))"

text \<open>
  \<^verbatim>\<open>str.lower()\<close> is applied to categories only. It is modelled on the letters A to Z;
  other code points are left as they are.
\<close>

definition lower_cp :: "nat \<Rightarrow> nat" where
  "lower_cp c = (if 65 \<le> c \<and> c \<le> 90 then c + 32 else c)"

definition lower :: "pystr \<Rightarrow> pystr" where
  "lower s = map lower_cp s"

text \<open>
  Truth value of an optional string as \<^verbatim>\<open>if args.category:\<close> tests it: \<^verbatim>\<open>None\<close> and the
  empty string are both false.
\<close>

definition truthy :: "pystr option \<Rightarrow> bool" where
  "truthy a = (case a of None \<Rightarrow> False | Some s \<Rightarrow> s \<noteq> [])"

subsection \<open>Exceptions\<close>

datatype py_error = ValueError | EOFError | ZeroDivisionError

subsection \<open>Slices\<close>

text \<open>
  \<^verbatim>\<open>xs[:c]\<close>: a negative stop counts from the end of the list and is cut off at 0.
\<close>

definition slice_to :: "'a list \<Rightarrow> int \<Rightarrow> 'a list" where
  "slice_to xs c = (if 0 \<le> c then take (nat c) xs else take (length xs - nat (- c)) xs)"

subsection \<open>Floating point\<close>

text \<open>
  A Python \<^verbatim>\<open>float\<close> is an IEEE binary64 number, which is a rational: the model keeps
  the value as a \<^typ>\<open>rat\<close> and rounds the exact result of every operation to the nearest
  number with a 53 bit significand, ties to even. Exponent overflow and subnormal
  numbers are left out (a quotient of two list lengths is far from both).
  \<^verbatim>\<open>a / b\<close> on two ints is correctly rounded in CPython and raises on \<^verbatim>\<open>b == 0\<close>.
\<close>

fun bit_length :: "nat \<Rightarrow> nat" where
  "bit_length n = (if n = 0 then 0 else Suc (bit_length (n div 2)))"

declare bit_length.simps [simp del]

definition ilog2 :: "rat \<Rightarrow> int" where
  "ilog2 x = (if 1 \<le> x then int (bit_length (nat \<lfloor>x\<rfloor>)) - 1
              else - int (bit_length (nat (\<lceil>1 / x\<rceil> - 1))))"

definition pow2 :: "int \<Rightarrow> rat" where
  "pow2 e = (if 0 \<le> e then 2 ^ nat e else 1 / 2 ^ nat (- e))"

definition round_half_even :: "rat \<Rightarrow> int" where
  "round_half_even x =
     (let f = \<lfloor>x\<rfloor>; d = x - of_int f
      in if d < 1 / 2 then f else if 1 / 2 < d then f + 1
         else if even f then f else f + 1)"

definition binary64 :: "rat \<Rightarrow> rat" where
  "binary64 x = (if x = 0 then 0
     else let e = ilog2 \<bar>x\<bar> - 52 in of_int (round_half_even (x / pow2 e)) * pow2 e)"

definition truediv :: "int \<Rightarrow> int \<Rightarrow> py_error + rat" where
  "truediv a b = (if b = 0 then Inl ZeroDivisionError else Inr (binary64 (of_int a / of_int b)))"

definition float_mul :: "rat \<Rightarrow> rat \<Rightarrow> rat" where
  "float_mul x y = binary64 (x * y)"

subsection \<open>Random numbers\<close>

text \<open>
  \<^verbatim>\<open>random.sample(population, k)\<close> of the standard library refuses \<open>k\<close> outside
  \<open>0..len(population)\<close> with a ValueError and otherwise fills the result from a copy of
  the population, the pool: the \<open>i\<close>-th element is \<^verbatim>\<open>pool[j]\<close> for a random
  \<open>j < n - i\<close>, and the last live pool entry moves into the vacancy. The generator is
  an explicit argument: its \<open>i\<close>-th draw below \<open>m\<close> is \<open>draws i mod m\<close>, so every
  sequence of outcomes of \<^verbatim>\<open>randbelow\<close> is the run of some \<open>draws\<close>. (For a large
  population CPython draws positions and redraws a position already taken; either way
  the result holds the elements of \<open>k\<close> different positions.)
\<close>

fun sample_loop :: "(nat \<Rightarrow> nat) \<Rightarrow> nat \<Rightarrow> nat \<Rightarrow> 'a list \<Rightarrow> nat \<Rightarrow> 'a list" where
  "sample_loop draws n i pool 0 = []"
| "sample_loop draws n i pool (Suc m) =
     (let j = draws i mod (n - i)
      in pool ! j # sample_loop draws n (Suc i) (pool[j := pool ! (n - i - 1)]) m)"

definition random_sample :: "(nat \<Rightarrow> nat) \<Rightarrow> 'a list \<Rightarrow> int \<Rightarrow> py_error + 'a list" where
  "random_sample draws population k =
     (let n = length population
      in if \<not> (0 \<le> k \<and> k \<le> int n) then Inl ValueError
         else Inr (sample_loop draws n 0 population (nat k)))"

section \<open>The question records\<close>

text \<open>
  One dict of \<^verbatim>\<open>QUESTIONS\<close>. The options dict is kept as the list of its items. The
  field \<open>question_text\<close> is the key \<^verbatim>\<open>'question'\<close>, \<open>qid\<close> the key \<^verbatim>\<open>'id'\<close>.
\<close>

record question =
  qid :: int
  category :: pystr
  difficulty :: pystr
  question_text :: pystr
  options :: "(pystr \<times> pystr) list"
  answer :: pystr
  explanation :: pystr

text \<open>The two sample records of the source; \<open>CHR 0xF6\<close> and \<open>CHR 0xFC\<close> are the umlauts.\<close>

definition QUESTIONS :: "question list" where
  "QUESTIONS =
    [\<lparr>qid = 1, category = str ''VLAN'', difficulty = str ''easy'',
      question_text = str ''Was ist der Hauptzweck von VLANs?'',
      options = [(str ''A'', str (''Erh'' @ [CHR 0xF6] @ ''hung der physischen Bandbreite'')),
                 (str ''B'', str ''Logische Segmentierung eines Netzwerks''),
                 (str ''C'', str (''Verschl'' @ [CHR 0xFC] @ ''sselung von Datenverkehr'')),
                 (str ''D'', str ''Automatische IP-Adressvergabe'')],
      answer = str ''B'',
      explanation = str (''VLANs erm'' @ [CHR 0xF6] @ ''glichen logische Segmentierung.'')\<rparr>,
     \<lparr>qid = 2, category = str ''Firewall'', difficulty = str ''medium'',
      question_text = str ''Was bedeutet Default-Deny-Policy?'',
      options = [(str ''A'', str ''Alle Verbindungen erlaubt''),
                 (str ''B'', str ''Nur HTTPS erlaubt''),
                 (str ''C'', str ''Alle Verbindungen blockiert''),
                 (str ''D'', str ''Nur lokaler Traffic erlaubt'')],
      answer = str ''C'',
      explanation = str ''Default-Deny = Least-Privilege-Prinzip.''\<rparr>]"

section \<open>Command line arguments and the dataset filter\<close>

text \<open>
  The namespace returned by \<^verbatim>\<open>parser.parse_args()\<close>: \<^verbatim>\<open>--count\<close> is any int,
  \<^verbatim>\<open>--category\<close> and \<^verbatim>\<open>--difficulty\<close> are \<^verbatim>\<open>None\<close> when absent.
\<close>

record args =
  args_count :: int
  args_category :: "pystr option"
  args_difficulty :: "pystr option"
  args_random :: bool

text \<open>Lines 118 to 124 of \<^verbatim>\<open>main\<close>, on a dataset \<open>qs\<close>.\<close>

definition filter_questions :: "args \<Rightarrow> question list \<Rightarrow> question list" where
  "filter_questions a qs =
     (let questions1 =
            (if truthy (args_category a)
             then filter (\<lambda>q. lower (category q) = lower (the (args_category a))) qs
             else qs);
          questions2 =
            (if truthy (args_difficulty a)
             then filter (\<lambda>q. difficulty q = the (args_difficulty a)) questions1
             else questions1)
      in questions2)"

section \<open>The quiz session\<close>

subsection \<open>Console\<close>

text \<open>
  What the program writes, one constructor per \<^verbatim>\<open>print\<close> block or prompt of the source:
  the banner of \<^verbatim>\<open>run\<close>; the question block of \<^verbatim>\<open>ask_question\<close> (number, count and
  record shown); the two prompts; the feedback lines; the explanation; the score line
  and the percentage line of \<^verbatim>\<open>show_results\<close>; its verdict line; and the message of
  \<^verbatim>\<open>main\<close> when no question is left.
\<close>

datatype verdict = EXZELLENT | GUT | BESTANDEN | NICHT_BESTANDEN

datatype line =
    Banner
  | Frage int int question
  | Deine_Antwort
  | RICHTIG
  | FALSCH pystr
  | Erklaerung pystr
  | Druecke_Enter
  | Richtige_Antworten int int
  | Prozent rat
  | Urteil verdict
  | Keine_Fragen_gefunden

text \<open>The console: the lines still to be read from standard input, and the output so far.\<close>

record console =
  stdin :: "pystr list"
  stdout :: "line list"

definition print :: "line \<Rightarrow> console \<Rightarrow> console" where
  "print l w = w\<lparr>stdout := stdout w @ [l]\<rparr>"

text \<open>\<^verbatim>\<open>input(prompt)\<close> writes the prompt and reads a line; at end of input it raises.\<close>

definition input :: "line \<Rightarrow> console \<Rightarrow> py_error + (pystr \<times> console)" where
  "input prompt w =
     (case stdin w of
        [] \<Rightarrow> Inl EOFError
      | l # ls \<Rightarrow> Inr (l, (print prompt w)\<lparr>stdin := ls\<rparr>))"

subsection \<open>class ExamQuiz\<close>

record ExamQuiz =
  questions :: "question list"
  count :: int
  random_order :: bool
  score :: int
  total :: int

definition init :: "question list \<Rightarrow> int \<Rightarrow> bool \<Rightarrow> ExamQuiz" where
  "init qs cnt rnd =
     \<lparr>questions = qs, count = min cnt (int (length qs)), random_order = rnd,
      score = 0, total = 0\<rparr>"

definition ask_question :: "ExamQuiz \<Rightarrow> int \<Rightarrow> question \<Rightarrow> console \<Rightarrow> py_error + (ExamQuiz \<times> console)" where
  "ask_question self num q w =
     (case input Deine_Antwort (print (Frage num (count self) q) w) of
        Inl e \<Rightarrow> Inl e
      | Inr (l, w1) \<Rightarrow>
          let answ = upper (strip l);
              self1 = self\<lparr>total := total self + 1\<rparr>;
              (self2, w2) =
                (if answ = answer q
                 then (self1\<lparr>score := score self1 + 1\<rparr>, print RICHTIG w1)
                 else (self1, print (FALSCH (answer q)) w1));
              w3 = print (Erklaerung (explanation q)) w2
          in case input Druecke_Enter w3 of
               Inl e \<Rightarrow> Inl e
             | Inr (_, w4) \<Rightarrow> Inr (self2, w4))"

text \<open>
  \<^verbatim>\<open>show_results\<close>: the percentage of line 92, the tier chosen by lines 100 to 107, and
  the three things printed.
\<close>

definition percentage :: "ExamQuiz \<Rightarrow> py_error + rat" where
  "percentage self =
     (if total self > 0
      then (case truediv (score self) (total self) of
              Inl e \<Rightarrow> Inl e
            | Inr x \<Rightarrow> Inr (float_mul x 100))
      else Inr 0)"

definition tier :: "rat \<Rightarrow> verdict" where
  "tier p =
     (if p \<ge> 90 then EXZELLENT
      else if p \<ge> 70 then GUT
      else if p \<ge> 50 then BESTANDEN
      else NICHT_BESTANDEN)"

definition show_results :: "ExamQuiz \<Rightarrow> console \<Rightarrow> py_error + console" where
  "show_results self w =
     (case percentage self of
        Inl e \<Rightarrow> Inl e
      | Inr p \<Rightarrow>
          Inr (print (Urteil (tier p))
                (print (Prozent p)
                  (print (Richtige_Antworten (score self) (total self)) w))))"

text \<open>Line 60 of \<^verbatim>\<open>run\<close>: the questions of the session.\<close>

definition selected :: "(nat \<Rightarrow> nat) \<Rightarrow> ExamQuiz \<Rightarrow> py_error + question list" where
  "selected draws self =
     (if random_order self then random_sample draws (questions self) (count self)
      else Inr (slice_to (questions self) (count self)))"

text \<open>The loop \<^verbatim>\<open>for i, q in enumerate(selected, 1)\<close>, from number \<open>i\<close> on.\<close>

fun ask_all :: "ExamQuiz \<Rightarrow> int \<Rightarrow> question list \<Rightarrow> console \<Rightarrow> py_error + (ExamQuiz \<times> console)" where
  "ask_all self i [] w = Inr (self, w)"
| "ask_all self i (q # qs) w =
     (case ask_question self i q w of
        Inl e \<Rightarrow> Inl e
      | Inr (self', w') \<Rightarrow> ask_all self' (i + 1) qs w')"

definition run :: "(nat \<Rightarrow> nat) \<Rightarrow> ExamQuiz \<Rightarrow> console \<Rightarrow> py_error + (ExamQuiz \<times> console)" where
  "run draws self w =
     (case selected draws self of
        Inl e \<Rightarrow> Inl e
      | Inr sel \<Rightarrow>
          (case ask_all self 1 sel (print Banner w) of
             Inl e \<Rightarrow> Inl e
           | Inr (self', w') \<Rightarrow>
               (case show_results self' w' of
                  Inl e \<Rightarrow> Inl e
                | Inr w'' \<Rightarrow> Inr (self', w''))))"

section \<open>main\<close>

text \<open>
  How the process ends when no exception escapes: the exit status, the console, and
  the session object if one was constructed. \<^verbatim>\<open>sys.exit(1)\<close> gives status 1; returning
  from \<^verbatim>\<open>main\<close> gives status 0. An escaping exception is the \<open>Inl\<close> result.
\<close>

record process =
  exit_status :: int
  final_console :: console
  session :: "ExamQuiz option"

definition main :: "question list \<Rightarrow> args \<Rightarrow> (nat \<Rightarrow> nat) \<Rightarrow> console \<Rightarrow> py_error + process" where
  "main dataset a draws w =
     (let qs = filter_questions a dataset
      in if qs = []
         then Inr \<lparr>exit_status = 1, final_console = print Keine_Fragen_gefunden w, session = None\<rparr>
         else (let quiz = init qs (args_count a) (args_random a)
               in case run draws quiz w of
                    Inl e \<Rightarrow> Inl e
                  | Inr (quiz', w') \<Rightarrow>
                      Inr \<lparr>exit_status = 0, final_console = w', session = Some quiz'\<rparr>))"

section \<open>Observations and reference readings\<close>

text \<open>The questions a console shows to have been asked, in the order of their blocks.\<close>

fun asked_of :: "line \<Rightarrow> question list" where
  "asked_of (Frage num cnt q) = [q]"
| "asked_of l = []"

definition asked :: "console \<Rightarrow> question list" where
  "asked w = concat (map asked_of (stdout w))"

text \<open>
  The states of a session object: as constructed, and after each answered question.
\<close>

inductive reachable :: "ExamQuiz \<Rightarrow> bool" where
  constructed: "reachable (init qs cnt rnd)"
| answered: "reachable self \<Longrightarrow> ask_question self num q w = Inr (self', w') \<Longrightarrow> reachable self'"

text \<open>A record whose answer key is written in lower case.\<close>

definition lower_key_question :: question where
  "lower_key_question =
    \<lparr>qid = 3, category = str ''VLAN'', difficulty = str ''easy'',
     question_text = str ''Welche Option ist richtig?'',
     options = [(str ''a'', str ''die falsche''), (str ''b'', str ''die richtige'')],
     answer = str ''b'',
     explanation = str ''Option b ist richtig.''\<rparr>"

text \<open>
  The filter contract in the specification's words: a criterion that is given must
  hold of the record (category up to letter case, difficulty exactly), a criterion that
  is omitted (\<open>None\<close>) asks nothing.
\<close>

definition spec_satisfies :: "pystr option \<Rightarrow> pystr option \<Rightarrow> question \<Rightarrow> bool" where
  "spec_satisfies cat diff q =
     ((case cat of None \<Rightarrow> True | Some c \<Rightarrow> lower (category q) = lower c) \<and>
      (case diff of None \<Rightarrow> True | Some d \<Rightarrow> difficulty q = d))"

definition spec_filter :: "pystr option \<Rightarrow> pystr option \<Rightarrow> question list \<Rightarrow> question list" where
  "spec_filter cat diff qs = filter (spec_satisfies cat diff) qs"

text \<open>The criterion in force for an argument: the empty string counts as omitted.\<close>

definition supplied :: "pystr option \<Rightarrow> pystr option" where
  "supplied a = (case a of None \<Rightarrow> None | Some s \<Rightarrow> if s = [] then None else Some s)"

section \<open>Auxiliary facts\<close>

subsection \<open>Stripping and upper-casing\<close>

lemma upper_special_ok:
  "list_all (\<lambda>(c, u). \<not> isspace c \<and> u \<noteq> [] \<and> \<not> isspace (hd u) \<and> \<not> isspace (last u))
     upper_special"
  by (simp add: upper_special_def isspace_def whitespace_def)

lemma upper_runs_ok:
  "list_all (\<lambda>(lo, hi, step, ulo).
       list_all (\<lambda>w. (w < lo \<or> hi < w) \<and> (w < ulo \<or> ulo + (hi - lo) < w)) whitespace)
     upper_runs"
  by (simp add: upper_runs_def whitespace_def)

lemma upper_cp_cases:
  "(\<not> isspace c \<and> upper_cp c \<noteq> [] \<and> \<not> isspace (hd (upper_cp c)) \<and> \<not> isspace (last (upper_cp c)))
   \<or> upper_cp c = [c]"
proof (cases "map_of upper_special c")
  case (Some u)
  then have "(c, u) \<in> set upper_special"
    by (rule map_of_SomeD)
  with upper_special_ok have
    "\<not> isspace c \<and> u \<noteq> [] \<and> \<not> isspace (hd u) \<and> \<not> isspace (last u)"
    by (auto simp: list_all_iff)
  with Some show ?thesis
    by (simp add: upper_cp_def)
next
  case None
  show ?thesis
  proof (cases "find (\<lambda>(lo, hi, step, ulo). lo \<le> c \<and> c \<le> hi \<and> (c - lo) mod step = 0) upper_runs")
    case n: None
    with None show ?thesis
      by (simp add: upper_cp_def)
  next
    case (Some r)
    obtain lo hi step ulo where r: "r = (lo, hi, step, ulo)"
      by (cases r) auto
    from Some r have m: "(lo, hi, step, ulo) \<in> set upper_runs" "lo \<le> c" "c \<le> hi"
      by (auto simp: find_Some_iff in_set_conv_nth)
    from m(1) upper_runs_ok have
      w: "\<forall>w \<in> set whitespace. (w < lo \<or> hi < w) \<and> (w < ulo \<or> ulo + (hi - lo) < w)"
      by (auto simp: list_all_iff)
    have "\<not> isspace c"
      using w m(2,3) by (auto simp: isspace_def)
    moreover have "\<not> isspace (ulo + (c - lo))"
      using w m(2,3) by (fastforce simp: isspace_def)
    moreover have "upper_cp c = [ulo + (c - lo)]"
      using None Some r by (simp add: upper_cp_def)
    ultimately show ?thesis
      by simp
  qed
qed

lemma dropWhile_concat_map:
  assumes "\<And>c. isspace c \<Longrightarrow> f c = [c]"
    and "\<And>c. \<not> isspace c \<Longrightarrow> f c \<noteq> [] \<and> \<not> isspace (hd (f c))"
  shows "dropWhile isspace (concat (map f s)) = concat (map f (dropWhile isspace s))"
proof (induction s)
  case Nil
  show ?case by simp
next
  case (Cons c s)
  show ?case
  proof (cases "isspace c")
    case True
    with assms(1) [OF True] Cons.IH show ?thesis by simp
  next
    case False
    from assms(2) [OF False] obtain x xs where "f c = x # xs" "\<not> isspace x"
      by (cases "f c") auto
    with False show ?thesis by simp
  qed
qed

lemma upper_cp_space: "isspace c \<Longrightarrow> upper_cp c = [c]"
  using upper_cp_cases [of c] by blast

lemma upper_cp_nonspace:
  "\<not> isspace c \<Longrightarrow>
   upper_cp c \<noteq> [] \<and> \<not> isspace (hd (upper_cp c)) \<and> \<not> isspace (last (upper_cp c))"
  using upper_cp_cases [of c] by auto

lemma dropWhile_upper: "dropWhile isspace (upper s) = upper (dropWhile isspace s)"
  unfolding upper_def
  by (rule dropWhile_concat_map) (simp_all add: upper_cp_space upper_cp_nonspace)

lemma rev_upper: "rev (upper s) = concat (map (rev \<circ> upper_cp) (rev s))"
  by (simp add: upper_def rev_concat rev_map)

lemma dropWhile_rev_upper:
  "dropWhile isspace (rev (upper s)) = rev (upper (rev (dropWhile isspace (rev s))))"
proof -
  have "dropWhile isspace (concat (map (rev \<circ> upper_cp) (rev s)))
      = concat (map (rev \<circ> upper_cp) (dropWhile isspace (rev s)))"
    by (rule dropWhile_concat_map) (simp_all add: upper_cp_space upper_cp_nonspace hd_rev)
  then show ?thesis
    by (simp add: rev_upper)
qed

lemma upper_strip: "upper (strip s) = strip (upper s)"
  by (simp add: strip_def dropWhile_upper dropWhile_rev_upper)

lemma strip_decompose:
  "\<exists>a b. s = a @ strip s @ b \<and> list_all isspace a \<and> list_all isspace b"
proof -
  define t where "t = dropWhile isspace s"
  have s: "s = takeWhile isspace s @ t"
    by (simp add: t_def)
  have "rev t = takeWhile isspace (rev t) @ dropWhile isspace (rev t)"
    by simp
  then have "t = rev (dropWhile isspace (rev t)) @ rev (takeWhile isspace (rev t))"
    by (metis rev_append rev_rev_ident)
  then have t: "t = strip s @ rev (takeWhile isspace (rev t))"
    by (simp add: strip_def t_def)
  have "list_all isspace (takeWhile isspace s)" "list_all isspace (rev (takeWhile isspace (rev t)))"
    by (auto simp: list_all_iff dest: set_takeWhileD)
  with s t show ?thesis
    by (metis append_assoc)
qed

lemma strip_ends:
  "strip s \<noteq> [] \<Longrightarrow> \<not> isspace (hd (strip s)) \<and> \<not> isspace (last (strip s))"
proof -
  assume ne: "strip s \<noteq> []"
  define t where "t = dropWhile isspace s"
  define r where "r = dropWhile isspace (rev t)"
  have st: "strip s = rev r"
    by (simp add: strip_def t_def r_def)
  with ne have rne: "r \<noteq> []"
    by simp
  then have l: "\<not> isspace (hd r)"
    unfolding r_def by (rule hd_dropWhile)
  have "\<exists>k. r = drop k (rev t)"
    unfolding r_def by (metis dropWhile_eq_drop)
  then obtain k where k: "r = drop k (rev t)" ..
  with rne have "last r = last (rev t)"
    by simp
  moreover have "t \<noteq> []"
    using k rne by auto
  ultimately have "last r = hd t"
    by (simp add: last_rev)
  moreover have "\<not> isspace (hd t)"
    using \<open>t \<noteq> []\<close> unfolding t_def by (rule hd_dropWhile)
  ultimately show ?thesis
    using l rne by (simp add: st hd_rev last_rev)
qed

lemma str_eq_iff: "(str a = str b) = (a = b)"
  by (simp add: str_def inj_map_eq_map inj_of_char)

lemma upper_ascii_examples:
  "upper (strip (str ''b'')) = str ''B''" "upper (strip (str '' b  '')) = str ''B''"
  "upper (strip (str ''B'')) = str ''B''" "upper (strip (str ''x'')) = str ''X''"
  "upper (strip (str ''c'')) = str ''C''"
  "upper (strip [0xA0, 0x62, 0x85]) = str ''B''" "upper [0xDF] = str ''SS''"
  by (simp_all add: upper_def strip_def str_def isspace_def whitespace_def upper_cp_def
      upper_special_def upper_runs_def)

subsection \<open>Rounding to binary64\<close>

lemma bit_length_bounds:
  "0 < n \<Longrightarrow> 2 ^ (bit_length n - 1) \<le> n \<and> n < 2 ^ bit_length n"
proof (induction n rule: bit_length.induct)
  case (1 n)
  show ?case
  proof (cases "n div 2 = 0")
    case True
    with "1.prems" have "n = 1" by (simp add: div_eq_0_iff) 
    moreover have "bit_length (Suc 0) = Suc 0"
      by (simp add: bit_length.simps [of "Suc 0"] bit_length.simps [of 0])
    ultimately show ?thesis
      by simp
  next
    case False
    then have pos: "0 < n div 2" by simp
    from "1.prems" have n0: "n \<noteq> 0" by simp
    from "1.IH" [OF n0 pos] have
      ih: "2 ^ (bit_length (n div 2) - 1) \<le> n div 2" "n div 2 < 2 ^ bit_length (n div 2)"
      by simp_all
    have bl: "bit_length n = Suc (bit_length (n div 2))"
      using n0 by (simp add: bit_length.simps [of n])
    have b1: "0 < bit_length (n div 2)"
      using pos by (simp add: bit_length.simps [of "n div 2"])
    have "2 ^ (bit_length n - 1) = 2 * 2 ^ (bit_length (n div 2) - 1)"
      using b1 by (simp add: bl power_Suc [symmetric] del: power_Suc)
    also have "\<dots> \<le> 2 * (n div 2)"
      using ih(1) by simp
    also have "\<dots> \<le> n"
      by simp
    finally have lo: "2 ^ (bit_length n - 1) \<le> n" .
    have "n < 2 * (n div 2 + 1)"
      by presburger
    also have "\<dots> \<le> 2 * 2 ^ bit_length (n div 2)"
      using ih(2) by simp
    finally have "n < 2 ^ bit_length n"
      by (simp add: bl)
    with lo show ?thesis by simp
  qed
qed

lemma bit_length_pos: "0 < n \<Longrightarrow> 0 < bit_length n"
  by (simp add: bit_length.simps [of n])

lemma pow2_powi: "pow2 e = 2 powi e"
  by (simp add: pow2_def power_int_def inverse_eq_divide power_one_over)

lemma pow2_pos: "0 < pow2 e"
  by (simp add: pow2_powi)

lemma pow2_add: "pow2 (a + b) = pow2 a * pow2 b"
  by (simp add: pow2_powi power_int_add)

lemma pow2_nat: "pow2 (int n) = 2 ^ n"
  by (simp add: pow2_def)

lemma pow2_neg_nat: "pow2 (- int n) = 1 / 2 ^ n"
  by (simp add: pow2_powi power_int_minus inverse_eq_divide)

lemma ilog2_bounds:
  assumes "0 < x"
  shows "pow2 (ilog2 x) \<le> x \<and> x < pow2 (ilog2 x + 1)"
proof (cases "1 \<le> x")
  case True
  define n where "n = nat \<lfloor>x\<rfloor>"
  have fl: "1 \<le> \<lfloor>x\<rfloor>"
    using True by simp
  then have n: "0 < n" "of_nat n \<le> x" "x < of_nat n + 1"
    unfolding n_def by (simp_all add: of_nat_nat) linarith+
  from bit_length_bounds [OF n(1)] bit_length_pos [OF n(1)] have
    b: "2 ^ (bit_length n - 1) \<le> n" "n < 2 ^ bit_length n" "0 < bit_length n"
    by simp_all
  have e: "ilog2 x = int (bit_length n - 1)"
    using True b(3) by (simp add: ilog2_def n_def)
  have "(2::rat) ^ (bit_length n - 1) \<le> of_nat n"
    using of_nat_mono [OF b(1), where 'a = rat] by simp
  from this n(2) have "(2::rat) ^ (bit_length n - 1) \<le> x"
    by (rule order_trans)
  then have lo: "pow2 (ilog2 x) \<le> x"
    by (simp only: e pow2_nat)
  have "n + 1 \<le> 2 ^ bit_length n"
    using b(2) by simp
  from of_nat_mono [OF this, where 'a = rat] have "(of_nat n :: rat) + 1 \<le> 2 ^ bit_length n"
    by simp
  with n(3) have "x < 2 ^ bit_length n"
    by (rule less_le_trans)
  moreover have "ilog2 x + 1 = int (bit_length n)"
    using b(3) by (simp add: e)
  ultimately have "x < pow2 (ilog2 x + 1)"
    by (simp only: pow2_nat)
  with lo show ?thesis by simp
next
  case False
  define y where "y = 1 / x"
  define n where "n = nat (\<lceil>y\<rceil> - 1)"
  have y1: "1 < y"
    using False assms by (simp add: y_def)
  then have c: "2 \<le> \<lceil>y\<rceil>"
    by (simp add: le_ceiling_iff) 
  then have n: "0 < n" "of_nat n < y" "y \<le> of_nat n + 1"
    unfolding n_def by (simp_all add: of_nat_nat) linarith+
  from bit_length_bounds [OF n(1)] bit_length_pos [OF n(1)] have
    b: "2 ^ (bit_length n - 1) \<le> n" "n < 2 ^ bit_length n" "0 < bit_length n"
    by simp_all
  have e: "ilog2 x = - int (bit_length n)"
    using False by (simp add: ilog2_def n_def y_def)
  have "n + 1 \<le> 2 ^ bit_length n"
    using b(2) by simp
  from of_nat_mono [OF this, where 'a = rat] have "(of_nat n :: rat) + 1 \<le> 2 ^ bit_length n"
    by simp
  with n(3) have "y \<le> 2 ^ bit_length n"
    by (rule order_trans)
  then have "1 / 2 ^ bit_length n \<le> x"
    using assms by (simp add: y_def field_simps)
  then have lo: "pow2 (ilog2 x) \<le> x"
    by (simp only: e pow2_neg_nat)
  have "(2::rat) ^ (bit_length n - 1) \<le> of_nat n"
    using of_nat_mono [OF b(1), where 'a = rat] by simp
  from this n(2) have "2 ^ (bit_length n - 1) < y"
    by (rule le_less_trans)
  then have "x < 1 / 2 ^ (bit_length n - 1)"
    using assms by (simp add: y_def field_simps)
  moreover have "ilog2 x + 1 = - int (bit_length n - 1)"
    using b(3) by (simp add: e)
  ultimately have "x < pow2 (ilog2 x + 1)"
    by (simp only: pow2_neg_nat)
  with lo show ?thesis by simp
qed

lemma round_half_even_close: "\<bar>of_int (round_half_even y) - y\<bar> \<le> 1 / 2"
proof -
  have "of_int \<lfloor>y\<rfloor> \<le> y" "y < of_int \<lfloor>y\<rfloor> + 1"
    by linarith+
  then show ?thesis
    by (auto simp: round_half_even_def Let_def)
qed

lemma binary64_close: "\<bar>binary64 x - x\<bar> \<le> \<bar>x\<bar> / 2 ^ 53"
proof (cases "x = 0")
  case True
  then show ?thesis by (simp add: binary64_def)
next
  case False
  define e where "e = ilog2 \<bar>x\<bar> - 52"
  define r where "r = round_half_even (x / pow2 e)"
  have b: "binary64 x = of_int r * pow2 e"
    using False by (simp add: binary64_def Let_def e_def r_def)
  have p: "0 < pow2 e"
    by (rule pow2_pos)
  have "\<bar>of_int r - x / pow2 e\<bar> \<le> 1 / 2"
    unfolding r_def by (rule round_half_even_close)
  then have "\<bar>of_int r - x / pow2 e\<bar> * pow2 e \<le> 1 / 2 * pow2 e"
    using p by (simp add: mult_right_mono)
  moreover have "\<bar>of_int r - x / pow2 e\<bar> * pow2 e = \<bar>of_int r * pow2 e - x\<bar>"
  proof -
    have "\<bar>of_int r - x / pow2 e\<bar> * pow2 e = \<bar>(of_int r - x / pow2 e) * pow2 e\<bar>"
      using p by (simp add: abs_mult)
    also have "(of_int r - x / pow2 e) * pow2 e = of_int r * pow2 e - x"
      using p by (simp add: field_simps)
    finally show ?thesis .
  qed
  ultimately have d: "\<bar>binary64 x - x\<bar> \<le> pow2 e / 2"
    by (simp add: b)
  have "pow2 (ilog2 \<bar>x\<bar>) \<le> \<bar>x\<bar>"
    using ilog2_bounds [of "\<bar>x\<bar>"] False by simp
  moreover have "pow2 (ilog2 \<bar>x\<bar>) = pow2 e * 2 ^ 52"
  proof -
    have "ilog2 \<bar>x\<bar> = e + int 52"
      by (simp add: e_def)
    then show ?thesis
      by (simp only: pow2_add pow2_nat)
  qed
  ultimately have "pow2 e * 2 ^ 52 \<le> \<bar>x\<bar>"
    by simp
  then have "pow2 e / 2 \<le> \<bar>x\<bar> / 2 ^ 53"
    by simp
  with d show ?thesis
    by simp
qed

lemma percentage_close:
  assumes "0 \<le> s" "s \<le> t" "0 < t"
  shows "\<bar>float_mul (binary64 (of_int s / of_int t)) 100 - 100 * of_int s / of_int t\<bar> \<le> 100 / 2 ^ 51"
proof -
  define q :: rat where "q = of_int s / of_int t"
  define d where "d = binary64 q"
  have q: "0 \<le> q" "q \<le> 1"
    using assms by (simp_all add: q_def)
  have "\<bar>d - q\<bar> \<le> \<bar>q\<bar> / 2 ^ 53"
    unfolding d_def by (rule binary64_close)
  also have "\<dots> \<le> 1 / 2 ^ 53"
    using q by (simp add: divide_right_mono)
  finally have dq: "\<bar>d - q\<bar> \<le> 1 / 2 ^ 53" .
  have "(1::rat) / 2 ^ 53 \<le> 1"
    by simp
  with dq have "\<bar>d - q\<bar> \<le> 1"
    by (rule order_trans)
  then have d2: "\<bar>d\<bar> \<le> 2"
    using q by linarith
  define p where "p = binary64 (d * 100)"
  have "\<bar>p - d * 100\<bar> \<le> \<bar>d * 100\<bar> / 2 ^ 53"
    unfolding p_def by (rule binary64_close)
  also have "\<dots> \<le> 200 / 2 ^ 53"
    using d2 by (simp add: abs_mult)
  finally have pd: "\<bar>p - 100 * d\<bar> \<le> 200 / 2 ^ 53"
    by (simp add: mult.commute)
  have tri: "\<bar>a - c\<bar> \<le> \<bar>a - b\<bar> + \<bar>b - c\<bar>" for a b c :: rat
    using abs_triangle_ineq [of "a - b" "b - c"] by simp
  have "\<bar>100 * d - 100 * q\<bar> = 100 * \<bar>d - q\<bar>"
    by (simp add: right_diff_distrib [symmetric] abs_mult del: right_diff_distrib_numeral)
  with tri [of p "100 * q" "100 * d"]
  have "\<bar>p - 100 * q\<bar> \<le> \<bar>p - 100 * d\<bar> + 100 * \<bar>d - q\<bar>"
    by simp
  also have "\<dots> \<le> 200 / 2 ^ 53 + 100 * (1 / 2 ^ 53)"
    using pd dq by (intro add_mono mult_left_mono) simp_all
  also have "\<dots> \<le> 100 / 2 ^ 51"
    by simp
  finally show ?thesis
    by (simp add: float_mul_def p_def d_def q_def)
qed

subsection \<open>Asking questions\<close>

lemma input_Cons: "stdin w = l # ls \<Longrightarrow> input p w = Inr (l, w\<lparr>stdin := ls, stdout := stdout w @ [p]\<rparr>)"
  by (simp add: input_def print_def)

lemma input_Nil: "stdin w = [] \<Longrightarrow> input p w = Inl EOFError"
  by (simp add: input_def)

lemma ask_question_ok:
  assumes "stdin w = l # ack # rest"
  shows "ask_question self num q w =
     Inr (self\<lparr>total := total self + 1,
               score := (if upper (strip l) = answer q then score self + 1 else score self)\<rparr>,
          w\<lparr>stdin := rest,
            stdout := stdout w @
              [Frage num (count self) q, Deine_Antwort,
               if upper (strip l) = answer q then RICHTIG else FALSCH (answer q),
               Erklaerung (explanation q), Druecke_Enter]\<rparr>)"
  using assms by (simp add: ask_question_def input_def print_def Let_def)

lemma ask_question_Inr:
  assumes "ask_question self num q w = Inr (self', w')"
  shows "\<exists>l ack. stdin w = l # ack # stdin w'"
  using assms
  by (auto simp: ask_question_def input_def print_def Let_def split: list.splits if_splits)

lemma ask_question_counters:
  assumes "ask_question self num q w = Inr (self', w')"
  shows "total self' = total self + 1 \<and> score self \<le> score self' \<and> score self' \<le> score self + 1"
proof -
  from ask_question_Inr [OF assms] obtain l ack where "stdin w = l # ack # stdin w'" by blast
  from ask_question_ok [OF this, of self num q] assms show ?thesis by auto
qed

lemma reachable_inv: "reachable self \<Longrightarrow> 0 \<le> score self \<and> score self \<le> total self"
proof (induction rule: reachable.induct)
  case (constructed qs cnt rnd)
  show ?case by (simp add: init_def)
next
  case (answered self num q w self' w')
  from ask_question_counters [OF answered.hyps(2)] answered.IH show ?case by linarith
qed

lemma asked_append: "asked (w\<lparr>stdout := stdout w @ ls\<rparr>) = asked w @ concat (map asked_of ls)"
  by (simp add: asked_def)

lemma ask_all_ok:
  "2 * length qs \<le> length (stdin w) \<Longrightarrow>
   \<exists>self' w'. ask_all self i qs w = Inr (self', w') \<and>
       total self' = total self + int (length qs) \<and>
       score self \<le> score self' \<and> score self' \<le> score self + int (length qs) \<and>
       stdin w' = drop (2 * length qs) (stdin w) \<and>
       asked w' = asked w @ qs"
proof (induction qs arbitrary: self i w)
  case Nil
  show ?case by simp
next
  case (Cons q qs)
  then obtain l ack rest where st: "stdin w = l # ack # rest"
    by (cases "stdin w"; cases "tl (stdin w)") auto
  let ?s1 = "self\<lparr>total := total self + 1,
               score := (if upper (strip l) = answer q then score self + 1 else score self)\<rparr>"
  let ?w1 = "w\<lparr>stdin := rest,
            stdout := stdout w @
              [Frage i (count self) q, Deine_Antwort,
               if upper (strip l) = answer q then RICHTIG else FALSCH (answer q),
               Erklaerung (explanation q), Druecke_Enter]\<rparr>"
  have a: "ask_question self i q w = Inr (?s1, ?w1)"
    by (rule ask_question_ok [OF st])
  have "2 * length qs \<le> length (stdin ?w1)"
    using Cons.prems st by simp
  from Cons.IH [OF this, of ?s1 "i + 1"] obtain self' w' where
    r: "ask_all ?s1 (i + 1) qs ?w1 = Inr (self', w')"
       "total self' = total ?s1 + int (length qs)"
       "score ?s1 \<le> score self'" "score self' \<le> score ?s1 + int (length qs)"
       "stdin w' = drop (2 * length qs) (stdin ?w1)"
       "asked w' = asked ?w1 @ qs"
    by blast
  have "asked ?w1 = asked w @ [q]"
    by (simp add: asked_def)
  with a r st show ?case
    by (auto split: if_splits)
qed

lemma ask_all_reachable:
  "reachable self \<Longrightarrow> ask_all self i qs w = Inr (self', w') \<Longrightarrow> reachable self'"
proof (induction qs arbitrary: self i w)
  case Nil
  then show ?case by simp
next
  case (Cons q qs)
  from Cons.prems(2) obtain s1 w1 where
    a: "ask_question self i q w = Inr (s1, w1)" and b: "ask_all s1 (i + 1) qs w1 = Inr (self', w')"
    by (auto split: sum.splits)
  from Cons.prems(1) a have "reachable s1" by (rule reachable.answered)
  from Cons.IH [OF this b] show ?case .
qed


lemma take_Suc_update_mset:
  assumes "k < length pool" "j \<le> k"
  shows "mset (take (Suc k) pool) = add_mset (pool ! j) (mset (take k (pool[j := pool ! k])))"
proof (cases "j = k")
  case True
  with assms show ?thesis by (simp add: take_Suc_conv_app_nth)
next
  case False
  with assms have jk: "j < k" by simp
  have "take k (pool[j := pool ! k]) = (take k pool)[j := pool ! k]"
    by (simp add: take_update_swap)
  moreover have "pool ! j \<in># mset (take k pool)"
    using jk assms by (metis in_set_conv_nth length_take min.absorb2 less_imp_le nth_take set_mset_mset)
  ultimately show ?thesis
    using jk assms by (simp add: take_Suc_conv_app_nth mset_update)
qed

lemma sample_loop_mset:
  "length pool = n \<Longrightarrow> i + m \<le> n \<Longrightarrow>
   mset (sample_loop draws n i pool m) \<subseteq># mset (take (n - i) pool)"
proof (induction m arbitrary: i pool)
  case 0
  show ?case by simp
next
  case (Suc m)
  define k where "k = n - Suc i"
  define j where "j = draws i mod (n - i)"
  have ni: "n - i = Suc k"
    using Suc.prems by (simp add: k_def)
  have "j < Suc k"
    unfolding j_def ni by (rule mod_less_divisor) simp
  then have jk: "j \<le> k"
    by simp
  have kl: "k < length pool"
    using Suc.prems by (simp add: k_def)
  have step: "sample_loop draws n i pool (Suc m) =
      pool ! j # sample_loop draws n (Suc i) (pool[j := pool ! k]) m"
    by (simp add: Let_def j_def k_def)
  have "mset (sample_loop draws n (Suc i) (pool[j := pool ! k]) m)
      \<subseteq># mset (take (n - Suc i) (pool[j := pool ! k]))"
    using Suc.prems by (intro Suc.IH) auto
  then have "mset (sample_loop draws n (Suc i) (pool[j := pool ! k]) m)
      \<subseteq># mset (take k (pool[j := pool ! k]))"
    by (simp only: k_def)
  then have "add_mset (pool ! j) (mset (sample_loop draws n (Suc i) (pool[j := pool ! k]) m))
      \<subseteq># add_mset (pool ! j) (mset (take k (pool[j := pool ! k])))"
    by simp
  also have "\<dots> = mset (take (Suc k) pool)"
    using take_Suc_update_mset [OF kl jk] by simp
  finally show ?case
    by (simp only: step ni mset.simps)
qed

lemma sample_loop_length: "length (sample_loop draws n i pool m) = m"
  by (induction m arbitrary: i pool) (auto simp: Let_def)

lemma random_sample_ok:
  assumes "0 \<le> k" "k \<le> int (length xs)"
  shows "\<exists>ys. random_sample draws xs k = Inr ys \<and> int (length ys) = k \<and> mset ys \<subseteq># mset xs"
proof -
  have "mset (sample_loop draws (length xs) 0 xs (nat k)) \<subseteq># mset (take (length xs - 0) xs)"
    using assms by (intro sample_loop_mset) auto
  with assms show ?thesis
    by (simp add: random_sample_def sample_loop_length)
qed

section \<open>The dataset filter\<close>

lemma filter_questions_eq:
  "filter_questions a qs = spec_filter (supplied (args_category a)) (supplied (args_difficulty a)) qs"
  by (cases "args_category a"; cases "args_difficulty a")
     (auto simp: filter_questions_def spec_filter_def spec_satisfies_def supplied_def truthy_def Let_def
           intro: filter_cong)

text \<open>
  Claim C1, as stated, at the category \<^verbatim>\<open>""\<close>: the claim asks for exactly the records that
  satisfy every criterion given, and no record of \<open>QUESTIONS\<close> has the category \<^verbatim>\<open>""\<close>;
  the code keeps both records, because \<^verbatim>\<open>if args.category:\<close> is false for the empty string.
\<close>

theorem filter_questions_empty_category_counterexample:
  "filter_questions
     \<lparr>args_count = 10, args_category = Some [], args_difficulty = None, args_random = False\<rparr>
     QUESTIONS
   \<noteq> spec_filter (Some []) None QUESTIONS"
  by code_simp

text \<open>
  Claim C1, amended: for every category and difficulty argument, where an argument that
  is omitted or is the empty string imposes no constraint, the filtered list consists of
  exactly the records of the dataset that satisfy all criteria in force (category compared
  after lower-casing both sides, difficulty compared exactly), in the order of the
  dataset; it is a subsequence of the dataset.
\<close>

theorem filter_questions_subsequence:
  "filter_questions a qs =
     spec_filter (supplied (args_category a)) (supplied (args_difficulty a)) qs
   \<and> subseq (filter_questions a qs) qs"
  by (simp add: filter_questions_eq spec_filter_def)

theorem filter_questions_subsequence_witness:
  "filter_questions
     \<lparr>args_count = 10, args_category = Some (str ''vlan''), args_difficulty = Some (str ''easy''),
      args_random = False\<rparr> QUESTIONS
   = spec_filter (Some (str ''vlan'')) (Some (str ''easy'')) QUESTIONS
   \<and> spec_filter (Some (str ''vlan'')) (Some (str ''easy'')) QUESTIONS = [hd QUESTIONS]"
proof -
  have "spec_filter (Some (str ''vlan'')) (Some (str ''easy'')) QUESTIONS = [hd QUESTIONS]"
    by code_simp
  then show ?thesis
    using filter_questions_subsequence
      [of "\<lparr>args_count = 10, args_category = Some (str ''vlan''), args_difficulty = Some (str ''easy''),
            args_random = False\<rparr>" QUESTIONS]
    by (simp add: supplied_def str_def)
qed

text \<open>
  Claim C10: the empty string as category imposes no constraint. The filter gives the
  same list for \<^verbatim>\<open>--category ""\<close> as for an omitted category, whatever the other
  arguments are; with no difficulty given, that list is the whole dataset.
\<close>

theorem filter_questions_empty_category:
  "filter_questions (a\<lparr>args_category := Some []\<rparr>) qs =
     filter_questions (a\<lparr>args_category := None\<rparr>) qs
   \<and> filter_questions
       \<lparr>args_count = c, args_category = Some [], args_difficulty = None, args_random = r\<rparr> qs
     = qs"
  by (simp add: filter_questions_def truthy_def)

section \<open>Scoring an answer\<close>

text \<open>
  Claim C2, as stated, at a record whose key is \<^verbatim>\<open>b\<close> and the answer line \<^verbatim>\<open>b\<close>: the
  line equals the key, letter for letter, and is scored as wrong, because the line is
  upper-cased and the key is compared as it is stored. The comparison is therefore not a
  case-insensitive match for every record.
\<close>

theorem ask_question_lower_case_key_counterexample:
  "ask_question (init [lower_key_question] 1 False) 1 lower_key_question
     \<lparr>stdin = [str ''b'', []], stdout = []\<rparr>
   = Inr ((init [lower_key_question] 1 False)\<lparr>total := 1\<rparr>,
          \<lparr>stdin = [],
           stdout = [Frage 1 1 lower_key_question, Deine_Antwort, FALSCH (str ''b''),
             Erklaerung (explanation lower_key_question), Druecke_Enter]\<rparr>)
   \<and> str ''b'' = answer lower_key_question"
proof -
  let ?w = "\<lparr>stdin = [str ''b'', []], stdout = []\<rparr>"
  have st: "stdin ?w = str ''b'' # [] # []"
    by simp
  have ne: "upper (strip (str ''b'')) \<noteq> answer lower_key_question"
    by (simp add: upper_ascii_examples lower_key_question_def str_eq_iff)
  show ?thesis
    unfolding ask_question_ok [OF st]
    using ne by (simp add: init_def lower_key_question_def)
qed

text \<open>
  Claim C2, amended: for every question record and every user input line, the input is
  normalized by trimming surrounding whitespace and upper-casing, then compared for
  equality with the record's answer key as it is stored; \<open>total\<close> goes up by one, \<open>score\<close>
  goes up by one exactly when the normalized input equals the answer key, and any other
  line (also one outside the option keys) is scored as wrong rather than raising an
  error. The letter case of the input does not matter: two lines that agree after
  upper-casing are scored alike. The match is case-insensitive against the key when the
  key is itself in upper case, as the keys of \<open>QUESTIONS\<close> are.

  Trimming: the line is its stripped part between two runs of white space, and the
  stripped part neither begins nor ends with white space.
\<close>

theorem ask_question_scoring:
  "(stdin w = l # ack # rest \<longrightarrow>
      ask_question self num q w =
        Inr (self\<lparr>total := total self + 1,
                  score := (if upper (strip l) = answer q then score self + 1 else score self)\<rparr>,
             w\<lparr>stdin := rest,
               stdout := stdout w @
                 [Frage num (count self) q, Deine_Antwort,
                  if upper (strip l) = answer q then RICHTIG else FALSCH (answer q),
                  Erklaerung (explanation q), Druecke_Enter]\<rparr>))
   \<and> (\<exists>a b. l = a @ strip l @ b \<and> list_all isspace a \<and> list_all isspace b)
   \<and> (strip l \<noteq> [] \<longrightarrow> \<not> isspace (hd (strip l)) \<and> \<not> isspace (last (strip l)))
   \<and> (upper l = upper l' \<longrightarrow> upper (strip l) = upper (strip l'))
   \<and> (upper (answer q) = answer q \<longrightarrow>
        (upper (strip l) = answer q) = (upper (strip l) = upper (answer q)))"
proof -
  have "upper (strip l) = upper (strip l')" if "upper l = upper l'"
    using that by (simp add: upper_strip)
  then show ?thesis
    using ask_question_ok [of w l ack rest self num q] strip_decompose [of l] strip_ends [of l]
    by auto
qed

theorem ask_question_scoring_witness:
  "ask_question (init QUESTIONS 10 False) 1 (hd QUESTIONS)
     \<lparr>stdin = [[0xA0, 0x62, 0x85], []], stdout = []\<rparr> =
     Inr ((init QUESTIONS 10 False)\<lparr>total := 1, score := 1\<rparr>,
          \<lparr>stdin = [], stdout = [Frage 1 2 (hd QUESTIONS), Deine_Antwort, RICHTIG,
              Erklaerung (explanation (hd QUESTIONS)), Druecke_Enter]\<rparr>)
   \<and> ask_question (init QUESTIONS 10 False) 1 (hd QUESTIONS)
       \<lparr>stdin = [str ''x'', []], stdout = []\<rparr> =
     Inr ((init QUESTIONS 10 False)\<lparr>total := 1\<rparr>,
          \<lparr>stdin = [], stdout = [Frage 1 2 (hd QUESTIONS), Deine_Antwort, FALSCH (str ''B''),
              Erklaerung (explanation (hd QUESTIONS)), Druecke_Enter]\<rparr>)
   \<and> upper (strip (str '' b  '')) = answer (hd QUESTIONS)
   \<and> upper (strip (str ''B'')) = answer (hd QUESTIONS)"
proof -
  let ?s0 = "init QUESTIONS 10 False"
  let ?w1 = "\<lparr>stdin = [[0xA0, 0x62, 0x85], []], stdout = []\<rparr>"
  let ?w2 = "\<lparr>stdin = [str ''x'', []], stdout = []\<rparr>"
  have q: "answer (hd QUESTIONS) = str ''B''" "count ?s0 = 2" "total ?s0 = 0" "score ?s0 = 0"
    by (simp_all add: QUESTIONS_def init_def)
  have x: "str ''X'' \<noteq> str ''B''"
    by (simp add: str_eq_iff)
  have a1: "stdin ?w1 = [0xA0, 0x62, 0x85] # [] # []" and a2: "stdin ?w2 = str ''x'' # [] # []"
    by simp_all
  from ask_question_scoring [where w = ?w1 and l = "[0xA0, 0x62, 0x85]" and ack = "[]"
      and rest = "[]" and self = ?s0 and num = 1 and q = "hd QUESTIONS"] a1
  have r1: "ask_question ?s0 1 (hd QUESTIONS) ?w1 =
      Inr (?s0\<lparr>total := total ?s0 + 1,
                score := (if upper (strip [0xA0, 0x62, 0x85]) = answer (hd QUESTIONS)
                          then score ?s0 + 1 else score ?s0)\<rparr>,
           ?w1\<lparr>stdin := [],
             stdout := stdout ?w1 @
               [Frage 1 (count ?s0) (hd QUESTIONS), Deine_Antwort,
                if upper (strip [0xA0, 0x62, 0x85]) = answer (hd QUESTIONS) then RICHTIG
                else FALSCH (answer (hd QUESTIONS)),
                Erklaerung (explanation (hd QUESTIONS)), Druecke_Enter]\<rparr>)"
    by blast
  from ask_question_scoring [where w = ?w2 and l = "str ''x''" and ack = "[]"
      and rest = "[]" and self = ?s0 and num = 1 and q = "hd QUESTIONS"] a2
  have r2: "ask_question ?s0 1 (hd QUESTIONS) ?w2 =
      Inr (?s0\<lparr>total := total ?s0 + 1,
                score := (if upper (strip (str ''x'')) = answer (hd QUESTIONS)
                          then score ?s0 + 1 else score ?s0)\<rparr>,
           ?w2\<lparr>stdin := [],
             stdout := stdout ?w2 @
               [Frage 1 (count ?s0) (hd QUESTIONS), Deine_Antwort,
                if upper (strip (str ''x'')) = answer (hd QUESTIONS) then RICHTIG
                else FALSCH (answer (hd QUESTIONS)),
                Erklaerung (explanation (hd QUESTIONS)), Druecke_Enter]\<rparr>)"
    by blast
  show ?thesis
    unfolding r1 r2 by (simp add: q x upper_ascii_examples)
qed

section \<open>The report\<close>

lemma percentage_total: "percentage self =
    Inr (if total self > 0 then float_mul (binary64 (of_int (score self) / of_int (total self))) 100 else 0)"
  by (simp add: percentage_def truediv_def)

text \<open>
  Claim C3: the verdict is chosen by the thresholds 90, 70 and 50, tried from the top,
  each inclusive at its lower bound: a percentage of exactly 90 gives the top tier,
  exactly 70 the second, exactly 50 the third and 49.9 the failing tier; and for every
  score and total, \<^verbatim>\<open>show_results\<close> prints the verdict of the percentage it computed.
\<close>

theorem verdict_tiers:
  "(tier p = EXZELLENT) = (90 \<le> p)
   \<and> (tier p = GUT) = (70 \<le> p \<and> p < 90)
   \<and> (tier p = BESTANDEN) = (50 \<le> p \<and> p < 70)
   \<and> (tier p = NICHT_BESTANDEN) = (p < 50)
   \<and> tier 90 = EXZELLENT \<and> tier 70 = GUT \<and> tier 50 = BESTANDEN
   \<and> tier (499 / 10) = NICHT_BESTANDEN \<and> tier (binary64 (499 / 10)) = NICHT_BESTANDEN
   \<and> (\<exists>x. percentage self = Inr x \<and>
        show_results self w =
          Inr (w\<lparr>stdout := stdout w @
                 [Richtige_Antworten (score self) (total self), Prozent x, Urteil (tier x)]\<rparr>))"
proof -
  have "binary64 (499 / 10) < 50" by code_simp
  then have "tier (binary64 (499 / 10)) = NICHT_BESTANDEN"
    by (simp add: tier_def)
  moreover have "\<exists>x. percentage self = Inr x \<and>
        show_results self w =
          Inr (w\<lparr>stdout := stdout w @
                 [Richtige_Antworten (score self) (total self), Prozent x, Urteil (tier x)]\<rparr>)"
    by (simp add: show_results_def percentage_total print_def)
  ultimately show ?thesis
    by (simp add: tier_def)
qed

theorem verdict_tiers_witness:
  "percentage \<lparr>questions = QUESTIONS, count = 2, random_order = False, score = 9, total = 10\<rparr> = Inr 90
   \<and> tier 90 = EXZELLENT
   \<and> percentage \<lparr>questions = QUESTIONS, count = 2, random_order = False, score = 7, total = 10\<rparr> = Inr 70
   \<and> tier 70 = GUT
   \<and> percentage \<lparr>questions = QUESTIONS, count = 2, random_order = False, score = 1, total = 2\<rparr> = Inr 50
   \<and> tier 50 = BESTANDEN
   \<and> percentage \<lparr>questions = QUESTIONS, count = 2, random_order = False, score = 499, total = 1000\<rparr>
       = Inr (binary64 (499 / 10))
   \<and> tier (binary64 (499 / 10)) = NICHT_BESTANDEN"
proof -
  have "float_mul (binary64 (9 / 10)) 100 = 90" "float_mul (binary64 (7 / 10)) 100 = 70"
    "float_mul (binary64 (1 / 2)) 100 = 50"
    "float_mul (binary64 (499 / 1000)) 100 = binary64 (499 / 10)"
    by code_simp+
  then show ?thesis
    using verdict_tiers [of 90 "\<lparr>questions = QUESTIONS, count = 2, random_order = False, score = 9, total = 10\<rparr>" "\<lparr>stdin = [], stdout = []\<rparr>"]
    by (simp add: percentage_total)
qed

section \<open>Sessions\<close>

subsection \<open>Auxiliary facts on \<^verbatim>\<open>run\<close> and the selection\<close>

lemma asked_print: "asked (print l w) = asked w @ asked_of l"
  by (simp add: asked_def print_def)

lemma stdin_print: "stdin (print l w) = stdin w"
  by (simp add: print_def)

lemma show_results_ok:
  "\<exists>w'. show_results self w = Inr w' \<and> asked w' = asked w \<and> stdin w' = stdin w"
  by (simp add: show_results_def percentage_total asked_print stdin_print)

lemma run_ok:
  assumes "selected draws self = Inr sel" "2 * length sel \<le> length (stdin w)"
  shows "\<exists>self' w'. run draws self w = Inr (self', w') \<and>
           total self' = total self + int (length sel) \<and> asked w' = asked w @ sel"
proof -
  have "2 * length sel \<le> length (stdin (print Banner w))"
    using assms(2) by (simp add: stdin_print)
  from ask_all_ok [OF this, of self 1] obtain s1 w1 where
    a: "ask_all self 1 sel (print Banner w) = Inr (s1, w1)"
       "total s1 = total self + int (length sel)"
       "asked w1 = asked (print Banner w) @ sel"
    by blast
  from show_results_ok [of s1 w1] obtain w2 where
    b: "show_results s1 w1 = Inr w2" "asked w2 = asked w1"
    by blast
  from assms(1) a b show ?thesis
    by (simp add: run_def asked_print)
qed

lemma run_reachable:
  assumes "reachable self" "run draws self w = Inr (self', w')"
  shows "reachable self'"
proof -
  from assms(2) obtain sel s1 w1 where
    "ask_all self 1 sel (print Banner w) = Inr (s1, w1)" "self' = s1"
    by (auto simp: run_def split: sum.splits)
  with ask_all_reachable [OF assms(1)] show ?thesis by blast
qed

lemma selected_sequential:
  "0 \<le> cnt \<Longrightarrow>
   selected draws (init qs cnt False) = Inr (take (nat (min cnt (int (length qs)))) qs)"
  by (simp add: selected_def init_def slice_to_def)

lemma mset_subset_distinct:
  assumes "mset ys \<subseteq># mset xs" "distinct xs"
  shows "distinct ys"
proof -
  have le: "Multiset.count (mset ys) a \<le> 1" for a
  proof -
    have "Multiset.count (mset ys) a \<le> Multiset.count (mset xs) a"
      using assms(1) by (rule mset_subset_eq_count)
    also have "\<dots> \<le> 1"
      using assms(2) by (simp add: distinct_count_atmost_1)
    finally show ?thesis .
  qed
  have "Multiset.count (mset ys) a = (if a \<in> set ys then 1 else 0)" for a
  proof (cases "a \<in> set ys")
    case True
    then have ge: "1 \<le> Multiset.count (mset ys) a"
      by (simp add: Suc_le_eq)
    from le [of a] ge have "Multiset.count (mset ys) a = 1"
      by (rule le_antisym)
    with True show ?thesis by (simp only: if_True)
  next
    case False
    then show ?thesis by (simp add: count_mset_0_iff)
  qed
  then show ?thesis
    by (simp add: distinct_count_atmost_1)
qed

lemma selected_random:
  assumes "0 \<le> cnt"
  shows "\<exists>sel. selected draws (init qs cnt True) = Inr sel \<and>
           int (length sel) = min cnt (int (length qs)) \<and> mset sel \<subseteq># mset qs"
proof -
  have "0 \<le> min cnt (int (length qs))" "min cnt (int (length qs)) \<le> int (length qs)"
    using assms by simp_all
  from random_sample_ok [OF this, of draws] show ?thesis
    by (simp add: selected_def init_def)
qed

lemma sel_seq5: "selected (\<lambda>i. 0) (init QUESTIONS 5 False) = Inr QUESTIONS"
  by (simp add: selected_sequential) (simp add: QUESTIONS_def)

subsection \<open>The counters\<close>

text \<open>
  Claim C8: \<open>score\<close> and \<open>total\<close> start at 0; every answered question adds exactly 1 to
  \<open>total\<close> and 0 or 1 to \<open>score\<close>, so neither ever decreases; and in every state of a
  session, \<open>0 \<le> score \<le> total\<close>. The states a run of the loop passes through, and the
  state \<^verbatim>\<open>run\<close> ends in, are such states.
\<close>

theorem counters_invariant:
  "score (init qs cnt rnd) = 0 \<and> total (init qs cnt rnd) = 0
   \<and> (reachable self \<longrightarrow> 0 \<le> score self \<and> score self \<le> total self)
   \<and> (ask_question self num q w = Inr (self1, w1) \<longrightarrow>
        total self1 = total self + 1 \<and> score self \<le> score self1 \<and> score self1 \<le> score self + 1)
   \<and> (reachable self \<and> ask_all self i sel w = Inr (self2, w2) \<longrightarrow> reachable self2)
   \<and> (run draws (init qs cnt rnd) w = Inr (self3, w3) \<longrightarrow> reachable self3)"
  using reachable_inv [of self] ask_question_counters [of self num q w self1 w1]
    ask_all_reachable [of self i sel w self2 w2]
    run_reachable [OF reachable.constructed, of draws qs cnt rnd w self3 w3]
  by (simp add: init_def)

theorem counters_invariant_witness:
  "reachable ((init QUESTIONS 10 False)\<lparr>total := 1, score := 1\<rparr>)
   \<and> 0 \<le> score ((init QUESTIONS 10 False)\<lparr>total := 1, score := 1\<rparr>)
   \<and> score ((init QUESTIONS 10 False)\<lparr>total := 1, score := 1\<rparr>)
       \<le> total ((init QUESTIONS 10 False)\<lparr>total := 1, score := 1\<rparr>)"
proof -
  let ?s0 = "init QUESTIONS 10 False"
  let ?s1 = "(init QUESTIONS 10 False)\<lparr>total := 1, score := 1\<rparr>"
  let ?w0 = "\<lparr>stdin = [(str ''b''), []], stdout = []\<rparr>"
  have u: "upper (strip (str ''b'')) = (str ''B'')"
    by (rule upper_ascii_examples)
  have k: "answer (hd QUESTIONS) = (str ''B'')"
    by (simp add: QUESTIONS_def)
  have st: "stdin ?w0 = (str ''b'') # [] # []"
    by simp
  have t: "total ?s0 = 0" "score ?s0 = 0"
    by (simp_all add: init_def)
  have "\<exists>w1. ask_question ?s0 1 (hd QUESTIONS) ?w0 = Inr (?s1, w1)"
    unfolding ask_question_ok [OF st] u k t by simp
  then obtain w1 where a: "ask_question ?s0 1 (hd QUESTIONS) ?w0 = Inr (?s1, w1)" ..
  have r: "reachable ?s1"
    using reachable.constructed a by (rule reachable.answered)
  from counters_invariant [where self = ?s1 and qs = QUESTIONS and cnt = 10 and rnd = False
      and num = 1 and q = "hd QUESTIONS" and w = ?w0 and ?self1.0 = ?s1 and ?w1.0 = ?w0
      and i = 1 and sel = "[]" and ?self2.0 = ?s1 and ?w2.0 = ?w0 and draws = "\<lambda>i. 0"
      and ?self3.0 = ?s0 and ?w3.0 = ?w0]
  have "reachable ?s1 \<longrightarrow> 0 \<le> score ?s1 \<and> score ?s1 \<le> total ?s1"
    by blast
  with r show ?thesis
    by blast
qed

text \<open>
  Claim C9: computing the percentage never raises; it is 0 when \<open>total\<close> is 0, and in
  every state of a session with \<open>total\<close> other than 0 it is the float quotient
  \<^verbatim>\<open>score / total\<close> multiplied by 100 as a float, which lies within \<open>100 / 2^51\<close> of
  the exact value of \<open>100 * score / total\<close>.
\<close>

theorem percentage_guarded:
  "(\<exists>x. percentage self = Inr x)
   \<and> (total self = 0 \<longrightarrow> percentage self = Inr 0)
   \<and> (reachable self \<and> total self \<noteq> 0 \<longrightarrow>
        (\<exists>d. truediv (score self) (total self) = Inr d \<and>
             percentage self = Inr (float_mul d 100) \<and>
             \<bar>float_mul d 100 - 100 * of_int (score self) / of_int (total self)\<bar>
               \<le> 100 / 2 ^ 51))"
proof -
  have "\<exists>d. truediv (score self) (total self) = Inr d \<and>
             percentage self = Inr (float_mul d 100) \<and>
             \<bar>float_mul d 100 - 100 * of_int (score self) / of_int (total self)\<bar>
               \<le> 100 / 2 ^ 51"
    if r: "reachable self" and t: "total self \<noteq> 0"
  proof -
    from reachable_inv [OF r] t have i: "0 \<le> score self" "score self \<le> total self" "0 < total self"
      by simp_all
    from percentage_close [OF i] i(3) show ?thesis
      by (simp add: percentage_total truediv_def)
  qed
  then show ?thesis
    by (auto simp: percentage_total)
qed

theorem percentage_guarded_witness:
  "percentage (init QUESTIONS 10 False) = Inr 0
   \<and> reachable ((init QUESTIONS 10 False)\<lparr>total := 1, score := 1\<rparr>)
   \<and> truediv 1 1 = Inr 1
   \<and> percentage ((init QUESTIONS 10 False)\<lparr>total := 1, score := 1\<rparr>) = Inr 100"
proof -
  let ?s0 = "init QUESTIONS 10 False"
  let ?s1 = "(init QUESTIONS 10 False)\<lparr>total := 1, score := 1\<rparr>"
  let ?w0 = "\<lparr>stdin = [(str ''b''), []], stdout = []\<rparr>"
  have u: "upper (strip (str ''b'')) = (str ''B'')"
    by (rule upper_ascii_examples)
  have k: "answer (hd QUESTIONS) = (str ''B'')"
    by (simp add: QUESTIONS_def)
  have st: "stdin ?w0 = (str ''b'') # [] # []"
    by simp
  have t: "total ?s0 = 0" "score ?s0 = 0" "total ?s1 = 1" "score ?s1 = 1"
    by (simp_all add: init_def)
  have "\<exists>w1. ask_question ?s0 1 (hd QUESTIONS) ?w0 = Inr (?s1, w1)"
    unfolding ask_question_ok [OF st] u k t by simp
  then obtain w1 where a: "ask_question ?s0 1 (hd QUESTIONS) ?w0 = Inr (?s1, w1)" ..
  have r: "reachable ?s1"
    using reachable.constructed a by (rule reachable.answered)
  have f: "truediv 1 1 = Inr 1" "float_mul 1 100 = 100"
    by code_simp+
  have p0: "percentage ?s0 = Inr 0"
    using percentage_guarded [of ?s0] t by blast
  have "\<exists>d. truediv (score ?s1) (total ?s1) = Inr d \<and> percentage ?s1 = Inr (float_mul d 100)"
    using percentage_guarded [of ?s1] r t by auto
  then have "percentage ?s1 = Inr 100"
    by (simp add: t f)
  with p0 r f show ?thesis
    by blast
qed

subsection \<open>Exit status\<close>

text \<open>
  Claim C5: when the filters leave no question, \<^verbatim>\<open>main\<close> prints its message and the
  process ends with status 1, no session object having been constructed; when the
  filtered list is not empty and the quiz runs to its end, the process ends with
  status 0. Of the runs that end without an escaping exception, those with status 1
  are exactly the ones with an empty filter result.
\<close>

theorem main_exit_status:
  "(filter_questions a ds = [] \<longrightarrow>
      main ds a draws w =
        Inr \<lparr>exit_status = 1, final_console = print Keine_Fragen_gefunden w, session = None\<rparr>)
   \<and> (filter_questions a ds \<noteq> [] \<and>
       run draws (init (filter_questions a ds) (args_count a) (args_random a)) w = Inr (self', w') \<longrightarrow>
      main ds a draws w = Inr \<lparr>exit_status = 0, final_console = w', session = Some self'\<rparr>)
   \<and> (main ds a draws w = Inr p \<longrightarrow>
        (exit_status p = 1) = (filter_questions a ds = []) \<and>
        (exit_status p = 0) = (session p \<noteq> None) \<and>
        (exit_status p = 0) = (filter_questions a ds \<noteq> []))"
  by (auto simp: main_def Let_def split: sum.splits)

theorem main_exit_status_witness:
  "main QUESTIONS
     \<lparr>args_count = 10, args_category = Some (str ''firewall''), args_difficulty = Some (str ''hard''),
      args_random = False\<rparr> (\<lambda>i. 0) \<lparr>stdin = [], stdout = []\<rparr>
   = Inr \<lparr>exit_status = 1, final_console = \<lparr>stdin = [], stdout = [Keine_Fragen_gefunden]\<rparr>,
          session = None\<rparr>
   \<and> map_sum id exit_status
        (main QUESTIONS
          \<lparr>args_count = 5, args_category = None, args_difficulty = None, args_random = False\<rparr>
          (\<lambda>i. 0) \<lparr>stdin = [(str ''b''), [], (str ''c''), []], stdout = []\<rparr>)
     = Inr 0"
proof -
  let ?a1 = "\<lparr>args_count = 10, args_category = Some (str ''firewall''), args_difficulty = Some (str ''hard''),
      args_random = False\<rparr>"
  let ?a2 = "\<lparr>args_count = 5, args_category = None, args_difficulty = None, args_random = False\<rparr>"
  let ?w2 = "\<lparr>stdin = [(str ''b''), [], (str ''c''), []], stdout = []\<rparr>"
  have f1: "filter_questions ?a1 QUESTIONS = []"
    by code_simp
  have f2: "filter_questions ?a2 QUESTIONS = QUESTIONS"
    by (simp add: filter_questions_def truthy_def)
  have ne: "QUESTIONS \<noteq> []"
    by (simp add: QUESTIONS_def)
  have "2 * length QUESTIONS \<le> length (stdin ?w2)"
    by (simp add: QUESTIONS_def)
  from run_ok [OF sel_seq5 this] obtain s' w' where
    r: "run (\<lambda>i. 0) (init QUESTIONS 5 False) ?w2 = Inr (s', w')"
    by blast
  have m1: "main QUESTIONS ?a1 (\<lambda>i. 0) \<lparr>stdin = [], stdout = []\<rparr>
      = Inr \<lparr>exit_status = 1, final_console = print Keine_Fragen_gefunden \<lparr>stdin = [], stdout = []\<rparr>,
          session = None\<rparr>"
    using main_exit_status [where a = ?a1 and ds = QUESTIONS and draws = "\<lambda>i. 0"
        and w = "\<lparr>stdin = [], stdout = []\<rparr>"] f1
    by blast
  have m2: "main QUESTIONS ?a2 (\<lambda>i. 0) ?w2
      = Inr \<lparr>exit_status = 0, final_console = w', session = Some s'\<rparr>"
    using main_exit_status [where a = ?a2 and ds = QUESTIONS and draws = "\<lambda>i. 0"
        and w = ?w2 and self' = s' and w' = w'] f2 ne r
    by simp
  show ?thesis
    unfolding m1 m2 by (simp add: print_def)
qed

text \<open>
  The scenario of two right answers: status 0, score 2 of 2, and the top verdict as the
  last line printed.
\<close>

lemma main_all_right:
  "map_sum id (\<lambda>p. (exit_status p, map_option (\<lambda>s. (score s, total s)) (session p),
       last (stdout (final_console p))))
     (main QUESTIONS
        \<lparr>args_count = 5, args_category = None, args_difficulty = None, args_random = False\<rparr>
        (\<lambda>i. 0) \<lparr>stdin = [(str ''b''), [], (str ''c''), []], stdout = []\<rparr>)
   = Inr (0, Some (2, 2), Urteil EXZELLENT)"
proof -
  have f: "float_mul (binary64 1) 100 = 100"
    by code_simp
  show ?thesis
    by (simp add: main_def filter_questions_def truthy_def Let_def init_def run_def
        selected_def slice_to_def QUESTIONS_def ask_question_def input_def print_def
        upper_ascii_examples show_results_def percentage_def truediv_def tier_def f)
qed

subsection \<open>How many questions, and which\<close>

text \<open>
  Claim C4, as stated, at the requested count \<open>-1\<close>: on the two sample questions, in
  sequential order, the session asks one question (\<^verbatim>\<open>questions[:-1]\<close>), whereas
  \<open>min(-1, 2)\<close> is \<open>-1\<close>.
\<close>

theorem questions_asked_negative_count_counterexample:
  "map_sum id (\<lambda>p. (total (fst p), asked (snd p)))
     (run (\<lambda>i. 0) (init QUESTIONS (- 1) False) \<lparr>stdin = [(str ''b''), []], stdout = []\<rparr>)
   = Inr (1, [hd QUESTIONS])
   \<and> min (- 1) (int (length QUESTIONS)) = - 1"
proof -
  let ?w = "\<lparr>stdin = [(str ''b''), []], stdout = []\<rparr>"
  have s: "selected (\<lambda>i. 0) (init QUESTIONS (- 1) False) = Inr [hd QUESTIONS]"
    by (simp add: selected_def init_def slice_to_def QUESTIONS_def)
  have "2 * length [hd QUESTIONS] \<le> length (stdin ?w)"
    by simp
  from run_ok [OF s this] obtain s' w' where
    "run (\<lambda>i. 0) (init QUESTIONS (- 1) False) ?w = Inr (s', w')"
    "total s' = total (init QUESTIONS (- 1) False) + int (length [hd QUESTIONS])"
    "asked w' = asked ?w @ [hd QUESTIONS]"
    by blast
  then show ?thesis
    by (simp add: init_def asked_def QUESTIONS_def)
qed

text \<open>
  Claim C4, amended: for every requested count that is not negative and every filtered
  list, in either order mode, the session selects and asks exactly
  \<open>min(requested_count, len(filtered_questions))\<close> questions, provided standard input
  holds the two lines each of them reads; a count above the number of questions is
  reduced to that number without an error.
\<close>

theorem questions_asked_clamped:
  assumes "0 \<le> cnt" "2 * nat (min cnt (int (length qs))) \<le> length (stdin w)"
  shows "\<exists>sel self' w'.
           selected draws (init qs cnt rnd) = Inr sel \<and>
           int (length sel) = min cnt (int (length qs)) \<and>
           run draws (init qs cnt rnd) w = Inr (self', w') \<and>
           asked w' = asked w @ sel \<and>
           total self' = min cnt (int (length qs))"
proof -
  have "\<exists>sel. selected draws (init qs cnt rnd) = Inr sel \<and> int (length sel) = min cnt (int (length qs))"
  proof (cases rnd)
    case True
    then have "rnd = True" by simp
    with selected_random [OF assms(1), of draws qs] show ?thesis by auto
  next
    case False
    then have "rnd = False" by simp
    with selected_sequential [OF assms(1), of draws qs] assms(1) show ?thesis by simp
  qed
  then obtain sel where s: "selected draws (init qs cnt rnd) = Inr sel"
      "int (length sel) = min cnt (int (length qs))"
    by blast
  from s(2) have "length sel = nat (min cnt (int (length qs)))"
    by linarith
  with assms(2) have "2 * length sel \<le> length (stdin w)"
    by simp
  from run_ok [OF s(1) this] s show ?thesis
    by (auto simp: init_def)
qed

theorem questions_asked_clamped_witness:
  "(0::int) \<le> 5
   \<and> 2 * nat (min 5 (int (length QUESTIONS)))
       \<le> length (stdin \<lparr>stdin = [(str ''b''), [], (str ''c''), []], stdout = []\<rparr>)
   \<and> min 5 (int (length QUESTIONS)) = 2
   \<and> (\<exists>sel self' w'.
         selected (\<lambda>i. 0) (init QUESTIONS 5 True) = Inr sel \<and> int (length sel) = 2 \<and>
         run (\<lambda>i. 0) (init QUESTIONS 5 True) \<lparr>stdin = [(str ''b''), [], (str ''c''), []], stdout = []\<rparr>
           = Inr (self', w') \<and>
         asked w' = sel \<and> total self' = 2)"
proof -
  let ?w = "\<lparr>stdin = [(str ''b''), [], (str ''c''), []], stdout = []\<rparr>"
  have l: "length QUESTIONS = 2"
    by (simp add: QUESTIONS_def)
  have h1: "(0::int) \<le> 5"
    by simp
  have h2: "2 * nat (min 5 (int (length QUESTIONS))) \<le> length (stdin ?w)"
    by (simp add: l)
  have e: "asked ?w = []"
    by (simp add: asked_def)
  show ?thesis
    using questions_asked_clamped [OF h1 h2, of "\<lambda>i. 0" True] h2
    by (simp add: l e)
qed

text \<open>
  Claim C6, as stated, at the requested count \<open>-1\<close>: with \<open>random_order\<close> true the
  session selects no questions at all, since \<^verbatim>\<open>random.sample\<close> refuses the negative
  size with a ValueError.
\<close>

theorem random_selection_negative_count_counterexample:
  "selected (\<lambda>i. 0) (init QUESTIONS (- 1) True) = Inl ValueError
   \<and> count (init QUESTIONS (- 1) True) = - 1"
  by code_simp

text \<open>
  Claim C6, amended: with \<open>random_order\<close> true and a requested count that is not
  negative, the selected questions are \<open>count\<close> records drawn without replacement from
  the filtered list: as multisets they are contained in the filtered list, so every
  selected record belongs to it and, the records of the list being distinct, none is
  selected twice; and these are the questions the session asks.
\<close>

theorem random_selection_without_replacement:
  assumes "0 \<le> cnt"
  shows "\<exists>sel. selected draws (init qs cnt True) = Inr sel \<and>
           int (length sel) = min cnt (int (length qs)) \<and>
           mset sel \<subseteq># mset qs \<and> set sel \<subseteq> set qs \<and>
           (distinct qs \<longrightarrow> distinct sel) \<and>
           (2 * length sel \<le> length (stdin w) \<longrightarrow>
              (\<exists>self' w'. run draws (init qs cnt True) w = Inr (self', w') \<and>
                 asked w' = asked w @ sel))"
proof -
  from selected_random [OF assms, of draws qs] obtain sel where
    s: "selected draws (init qs cnt True) = Inr sel"
       "int (length sel) = min cnt (int (length qs))" "mset sel \<subseteq># mset qs"
    by blast
  have "set sel \<subseteq> set qs"
    using set_mset_mono [OF s(3)] by simp
  moreover have "distinct qs \<longrightarrow> distinct sel"
    using mset_subset_distinct [OF s(3)] by blast
  moreover have "2 * length sel \<le> length (stdin w) \<longrightarrow>
      (\<exists>self' w'. run draws (init qs cnt True) w = Inr (self', w') \<and> asked w' = asked w @ sel)"
    using run_ok [OF s(1), of w] by blast
  ultimately show ?thesis
    using s by blast
qed

theorem random_selection_without_replacement_witness:
  "(0::int) \<le> 2
   \<and> selected (\<lambda>i. 1) (init QUESTIONS 2 True) = Inr (rev QUESTIONS)
   \<and> mset (rev QUESTIONS) \<subseteq># mset QUESTIONS
   \<and> distinct QUESTIONS \<and> distinct (rev QUESTIONS)"
proof -
  have h: "(0::int) \<le> 2"
    by simp
  have c: "selected (\<lambda>i. 1) (init QUESTIONS 2 True) = Inr (rev QUESTIONS)"
    by code_simp
  have d: "distinct QUESTIONS"
    by (simp add: QUESTIONS_def)
  from random_selection_without_replacement [OF h, of "\<lambda>i. 1" QUESTIONS "\<lparr>stdin = [], stdout = []\<rparr>"]
  obtain sel where
    "selected (\<lambda>i. 1) (init QUESTIONS 2 True) = Inr sel" "mset sel \<subseteq># mset QUESTIONS"
    "distinct QUESTIONS \<longrightarrow> distinct sel"
    by blast
  with c d have "mset (rev QUESTIONS) \<subseteq># mset QUESTIONS" "distinct (rev QUESTIONS)"
    by auto
  with h c d show ?thesis
    by blast
qed

text \<open>
  Claim C7, as stated, at the requested count \<open>-1\<close>: with \<open>random_order\<close> false the
  session's \<open>count\<close> is \<open>-1\<close> and the slice \<^verbatim>\<open>questions[:-1]\<close> selects the first of the
  two sample questions, which is not the list of the first \<open>count\<close> records (there
  are none).
\<close>

theorem sequential_selection_negative_count_counterexample:
  "selected (\<lambda>i. 0) (init QUESTIONS (- 1) False) = Inr [hd QUESTIONS]
   \<and> count (init QUESTIONS (- 1) False) = - 1
   \<and> take (nat (count (init QUESTIONS (- 1) False))) QUESTIONS = []"
  by code_simp

text \<open>
  Claim C7, amended: with \<open>random_order\<close> false and a requested count that is not
  negative, the session selects, and asks in this order, the first \<open>count\<close> records of
  the filtered list, \<open>count\<close> being the requested count clamped to the length of the
  list; with two questions and a requested count of 5, both are asked in their original
  order.
\<close>

theorem sequential_selection_first_count:
  assumes "0 \<le> cnt"
  shows "selected draws (init qs cnt False) = Inr (take (nat (min cnt (int (length qs)))) qs)
     \<and> (2 * nat (min cnt (int (length qs))) \<le> length (stdin w) \<longrightarrow>
          (\<exists>self' w'. run draws (init qs cnt False) w = Inr (self', w') \<and>
             asked w' = asked w @ take (nat (min cnt (int (length qs)))) qs))"
proof -
  let ?sel = "take (nat (min cnt (int (length qs)))) qs"
  have s: "selected draws (init qs cnt False) = Inr ?sel"
    using assms by (rule selected_sequential)
  have "length ?sel = nat (min cnt (int (length qs)))"
    using assms by simp
  with run_ok [OF s, of w] s show ?thesis
    by auto
qed

theorem sequential_selection_first_count_witness:
  "(0::int) \<le> 5
   \<and> selected (\<lambda>i. 0) (init QUESTIONS 5 False) = Inr QUESTIONS
   \<and> (\<exists>self' w'.
         run (\<lambda>i. 0) (init QUESTIONS 5 False) \<lparr>stdin = [(str ''b''), [], (str ''c''), []], stdout = []\<rparr>
           = Inr (self', w') \<and> asked w' = QUESTIONS)"
proof -
  let ?w = "\<lparr>stdin = [(str ''b''), [], (str ''c''), []], stdout = []\<rparr>"
  have l: "length QUESTIONS = 2"
    by (simp add: QUESTIONS_def)
  have h: "(0::int) \<le> 5"
    by simp
  have e: "asked ?w = []"
    by (simp add: asked_def)
  show ?thesis
    using sequential_selection_first_count [OF h, of "\<lambda>i. 0" QUESTIONS ?w]
    by (simp add: l e)
qed

subsection \<open>Outside the intended inputs\<close>

text \<open>
  A negative \<^verbatim>\<open>--count\<close> with \<^verbatim>\<open>--random\<close>: \<^verbatim>\<open>random.sample\<close> refuses the negative
  size, and the ValueError escapes from \<^verbatim>\<open>run\<close> and from \<^verbatim>\<open>main\<close> before any question is
  asked.
\<close>

theorem negative_count_random_raises:
  "cnt < 0 \<Longrightarrow>
   selected draws (init qs cnt True) = Inl ValueError \<and>
   run draws (init qs cnt True) w = Inl ValueError \<and>
   (filter_questions a ds \<noteq> [] \<and> args_count a = cnt \<and> args_random a \<longrightarrow>
      main ds a draws w = Inl ValueError)"
  by (auto simp: selected_def init_def random_sample_def run_def main_def Let_def)

theorem negative_count_random_raises_witness:
  "(- 1 :: int) < 0 \<and>
   main QUESTIONS
     \<lparr>args_count = - 1, args_category = None, args_difficulty = None, args_random = True\<rparr>
     (\<lambda>i. 0) \<lparr>stdin = [(str ''b''), [], (str ''c''), []], stdout = []\<rparr>
   = Inl ValueError"
proof -
  let ?a = "\<lparr>args_count = - 1, args_category = None, args_difficulty = None, args_random = True\<rparr>"
  have h: "(- 1 :: int) < 0"
    by simp
  have f: "filter_questions ?a QUESTIONS \<noteq> []"
    by (simp add: filter_questions_def truthy_def QUESTIONS_def)
  show ?thesis
    using negative_count_random_raises [OF h, where a = ?a and ds = QUESTIONS] f
    by simp
qed

text \<open>
  A negative \<^verbatim>\<open>--count\<close> in sequential order: the slice \<^verbatim>\<open>questions[:count]\<close> drops the
  last \<open>-count\<close> questions and the session asks the others.
\<close>

theorem negative_count_sequential_drops_last:
  "cnt < 0 \<Longrightarrow>
   selected draws (init qs cnt False) = Inr (take (length qs - nat (- cnt)) qs)"
  by (simp add: selected_def init_def slice_to_def)

theorem negative_count_sequential_drops_last_witness:
  "(- 1 :: int) < 0 \<and> selected (\<lambda>i. 0) (init QUESTIONS (- 1) False) = Inr [hd QUESTIONS]"
proof -
  have h: "(- 1 :: int) < 0"
    by simp
  show ?thesis
    using negative_count_sequential_drops_last [OF h, of "\<lambda>i. 0" QUESTIONS]
    by (simp add: QUESTIONS_def)
qed

text \<open>
  Standard input ending inside a question: each question reads two lines, and
  \<^verbatim>\<open>input\<close> raises EOFError when one of them is missing.
\<close>

theorem end_of_input_raises:
  "length (stdin w) < 2 \<Longrightarrow> ask_question self num q w = Inl EOFError"
  by (cases "stdin w"; cases "tl (stdin w)")
     (auto simp: ask_question_def input_def print_def Let_def split: if_splits)

theorem end_of_input_raises_witness:
  "length (stdin \<lparr>stdin = [(str ''b'')], stdout = []\<rparr>) < 2 \<and>
   ask_question (init QUESTIONS 10 False) 1 (hd QUESTIONS) \<lparr>stdin = [(str ''b'')], stdout = []\<rparr>
     = Inl EOFError"
proof -
  have h: "length (stdin \<lparr>stdin = [(str ''b'')], stdout = []\<rparr>) < 2"
    by simp
  show ?thesis
    using end_of_input_raises [OF h] h by blast
qed

end
